theory Spec2Isabelle
  imports Main "HOL-Library.AList" "HOL-Library.Multiset" "HOL-Library.Word"
begin

unbundle bit_operations_syntax

section \<open>Data model of worker/mutation.go\<close>

text \<open>
  The value types of \<^verbatim>\<open>pb.Posting_ValType\<close>. The source converts freely between this
  enumeration and \<^verbatim>\<open>types.TypeID\<close> (\<^verbatim>\<open>types.TypeID(su.ValueType)\<close>, \<^verbatim>\<open>schemaType.Enum()\<close>);
  both share one numbering, so one datatype stands for both.
\<close>

datatype ValType =
    DefaultID | BinaryID | IntID | FloatID | BoolID | DateTimeID | GeoID
  | UidID | PasswordID | StringID | ObjectID | BigFloatID | VFloatID

text \<open>
  \<^verbatim>\<open>types.TypeID.IsScalar\<close> is used by the source but declared in package types. The source's
  own messages (\<^verbatim>\<open>"Input for predicate %q of type uid is scalar"\<close>) and its comment
  \<^verbatim>\<open>"uid => scalar or scalar => uid"\<close> identify the non-scalar types with uid.
\<close>

definition IsScalar :: "ValType \<Rightarrow> bool" where
  "IsScalar t = (t \<noteq> UidID)"

text \<open>
  The operation of an edge. The source tells \<^verbatim>\<open>pb.DirectedEdge_DEL\<close> from every other
  operation and names no other.
\<close>

datatype DirectedEdge_Op = SET | DEL

record DirectedEdge =
  Entity :: nat
  Attr :: string
  Value :: string
  ValueType :: ValType
  ValueId :: nat
  Lang :: string
  Op :: DirectedEdge_Op

datatype Directive = NONE | INDEX | REVERSE | DELETE

record SchemaUpdate =
  su_Predicate :: string
  su_ValueType :: ValType
  su_Directive :: Directive
  su_Tokenizer :: "string list"
  su_Count :: bool
  su_List :: bool
  su_Upsert :: bool
  su_Lang :: bool
  su_Unique :: bool
  su_ObjectTypeName :: string

text \<open>The Go zero value \<^verbatim>\<open>pb.SchemaUpdate{}\<close>.\<close>

definition zeroSchemaUpdate :: SchemaUpdate where
  "zeroSchemaUpdate =
     \<lparr>su_Predicate = [], su_ValueType = DefaultID, su_Directive = NONE, su_Tokenizer = [],
      su_Count = False, su_List = False, su_Upsert = False, su_Lang = False,
      su_Unique = False, su_ObjectTypeName = []\<rparr>"

text \<open>
  A dynamically typed Go value (\<^verbatim>\<open>interface{}\<close>) as far as the source inspects it: the type
  assertions \<^verbatim>\<open>dst.Value.(int64)\<close> and \<^verbatim>\<open>b.Value.([]byte)\<close>.
\<close>

datatype go_any = AInt64 int | ABytes string | AOther

record Val =
  Tid :: ValType
  Val_Value :: go_any

text \<open>
  Every \<^verbatim>\<open>errors.Errorf\<close> of the modelled functions is a constructor carrying the formatted
  arguments. Errors handed up from collaborators are wrapped by where they come from. A Go
  panic (\<^verbatim>\<open>attr[0]\<close> on an empty string) is an outcome of its own.
\<close>

datatype error =
    ErrSchemaNotFound string
  | ErrNeverReach
  | ErrLangDirective string DirectedEdge
  | ErrUidIsScalar string DirectedEdge
  | ErrScalarIsUid string DirectedEdge
  | ErrNotVector string DirectedEdge
  | ErrPermissionNotInt
  | ErrPermissionRange int
  | ErrConvertFailure ValType ValType
  | ErrConvert string
  | ErrMarshal string
  | ErrStore string
  | ErrNonExistentTablet
  | ErrUnservedTablet
  | ErrBelongsTo string
  | ErrTypeNameMissing
  | ErrFieldNoName
  | ErrObjectTypeNameMissing
  | ErrFieldDirective
  | ErrFieldTokenizer
  | ErrSchemaRetrieve string
  | ErrNoMatchingPredicate string string
  | PanicIndexOutOfRange
  | ErrNilSchema
  | ErrNoPredicate
  | ErrInternalName string
  | ErrTokenizerMissing SchemaUpdate
  | ErrDirectiveNotIndex
  | ErrIndexOnUid string
  | ErrReverseNonUid string
  | ErrUpsertNeedsIndex string
  | ErrDropUpsert string
  | ErrDropUniqueIndex "string list" string
  | ErrUniqueIndexMissingString string
  | ErrUniqueIndexMissingInt string
  | ErrUniqueUnsupported ValType
  | ErrTypeChange ValType ValType
  | ErrListToNonList ValType ValType string
  | ErrUidScalarFlip string
  | ErrRebuild string
  | ErrNoConnection
  | ErrContext string
  | ErrRemote string
  | ErrSchemaNotDefined string
  | ErrOracle string
  | ErrPropose string

text \<open>
  What the validation code takes from packages x, posting, schema and types, none of which
  is among the sources: the constant \<^verbatim>\<open>x.Star\<close>, the flag \<^verbatim>\<open>x.WorkerConfig.AclEnabled\<close>, the
  functions \<^verbatim>\<open>x.ParseAttr\<close>, \<^verbatim>\<open>posting.TypeID\<close>, \<^verbatim>\<open>types.Convert\<close> and \<^verbatim>\<open>types.Marshal\<close>
  (the last returning the new \<^verbatim>\<open>b.Value\<close>), \<^verbatim>\<open>x.IsInternalPredicate\<close>,
  \<^verbatim>\<open>schema.HasTokenizerOrVectorIndexSpec\<close>, and the bit \<^verbatim>\<open>posting.BitEmptyPosting\<close> of an
  item's user meta byte. They are parameters of the model.
\<close>

record env =
  Star :: string
  AclEnabled :: bool
  ParseAttr :: "string \<Rightarrow> string"
  posting_TypeID :: "DirectedEdge \<Rightarrow> ValType"
  Convert :: "Val \<Rightarrow> ValType \<Rightarrow> string + Val"
  Marshal :: "Val \<Rightarrow> string + go_any"
  IsInternalPredicate :: "string \<Rightarrow> bool"
  HasTokenizerOrVectorIndexSpec :: "SchemaUpdate \<Rightarrow> bool"
  BitEmptyPosting :: "8 word"

section \<open>Edge validation\<close>

definition isStarAll :: "env \<Rightarrow> string \<Rightarrow> bool" where
  "isStarAll env v = (v = Star env)"

definition isDeletePredicateEdge :: "env \<Rightarrow> DirectedEdge \<Rightarrow> bool" where
  "isDeletePredicateEdge env edge = (Entity edge = 0 \<and> isStarAll env (Value edge))"

text \<open>
  The tail of \<^verbatim>\<open>ValidateAndConvert\<close> (from \<^verbatim>\<open>var (dst types.Val ...)\<close> to the end): convert
  the raw value to \<open>schemaType\<close>, marshal it to binary, check the permission predicate, and
  store type and bytes on the edge.
\<close>

definition convertAndStore ::
  "env \<Rightarrow> DirectedEdge \<Rightarrow> ValType \<Rightarrow> ValType \<Rightarrow> error + DirectedEdge" where
  "convertAndStore env edge storageType schemaType =
     (let src = \<lparr>Tid = ValueType edge, Val_Value = ABytes (Value edge)\<rparr> in
      case Convert env src schemaType of
        Inl m \<Rightarrow> Inl (ErrConvert m)
      | Inr dst \<Rightarrow>
          (case Marshal env dst of
             Inl m \<Rightarrow> Inl (ErrMarshal m)
           | Inr bv \<Rightarrow>
               (let store =
                  (case bv of
                     ABytes b \<Rightarrow> Inr (edge\<lparr>ValueType := schemaType, Value := b\<rparr>)
                   | _ \<Rightarrow> Inl (ErrConvertFailure storageType schemaType))
                in
                if AclEnabled env \<and> ParseAttr env (Attr edge) = ''dgraph.rule.permission''
                then (case Val_Value dst of
                        AInt64 perm \<Rightarrow>
                          if perm < 0 \<or> perm > 7 then Inl (ErrPermissionRange perm) else store
                      | _ \<Rightarrow> Inl ErrPermissionNotInt)
                else store)))"

definition ValidateAndConvert ::
  "env \<Rightarrow> DirectedEdge \<Rightarrow> SchemaUpdate \<Rightarrow> error + DirectedEdge" where
  "ValidateAndConvert env edge su =
     (if isDeletePredicateEdge env edge then Inr edge
      else if ValueType edge = DefaultID \<and> isStarAll env (Value edge) then Inr edge
      else
        (let storageType = posting_TypeID env edge;
             schemaType = su_ValueType su
         in
         if Lang edge \<noteq> [] \<and> \<not> su_Lang su
           then Inl (ErrLangDirective (ParseAttr env (Attr edge)) edge)
         else if \<not> IsScalar schemaType \<and> \<not> IsScalar storageType
           then Inr edge
         else if \<not> IsScalar schemaType \<and> IsScalar storageType
           then Inl (ErrUidIsScalar (ParseAttr env (Attr edge)) edge)
         else if IsScalar schemaType \<and> \<not> IsScalar storageType
           then Inl (ErrScalarIsUid (ParseAttr env (Attr edge)) edge)
         else if schemaType = VFloatID
           then (if \<not> (storageType = VFloatID \<or> storageType = StringID \<or>
                        storageType = DefaultID)
                 then Inl (ErrNotVector (ParseAttr env (Attr edge)) edge)
                 else convertAndStore env edge storageType schemaType)
         else if storageType = schemaType \<and> schemaType \<noteq> DefaultID
           then Inr edge
         else if schemaType = DefaultID
           then convertAndStore env edge storageType storageType
         else convertAndStore env edge storageType schemaType))"

section \<open>The schema state\<close>

text \<open>
  Modelled from the spec: the in-memory schema state \<^verbatim>\<open>schema.State()\<close> of package schema,
  which is not among the sources. "Exactly one live version exists per predicate"; a new
  schema is "published in memory immediately" while the durable commit is deferred. The
  source keeps two entries per predicate: the published schema (\<^verbatim>\<open>Set\<close>) and, while an index
  is rebuilt, the schema that mutations are validated against (\<^verbatim>\<open>SetMutSchema\<close>,
  \<^verbatim>\<open>DeleteMutSchema\<close>), which a \<^verbatim>\<open>Get\<close> in a write context (\<^verbatim>\<open>schema.GetWriteContext\<close>) prefers.
  A \<^verbatim>\<open>Get\<close> that finds nothing returns the zero value and \<^verbatim>\<open>false\<close>.
\<close>

record schema_state =
  predicate :: "string \<rightharpoonup> SchemaUpdate"
  mutSchema :: "string \<rightharpoonup> SchemaUpdate"

definition state_Get :: "bool \<Rightarrow> schema_state \<Rightarrow> string \<Rightarrow> SchemaUpdate \<times> bool" where
  "state_Get isWrite st pred =
     (case (if isWrite then mutSchema st pred else None) of
        Some s \<Rightarrow> (s, True)
      | None \<Rightarrow>
          (case predicate st pred of
             Some s \<Rightarrow> (s, True)
           | None \<Rightarrow> (zeroSchemaUpdate, False)))"

section \<open>The edge applier\<close>

text \<open>
  A posting-list key \<^verbatim>\<open>x.DataKey(attr, entity)\<close> is the pair it is built from. The three
  retrieval methods of \<^verbatim>\<open>posting.Txn\<close> that \<^verbatim>\<open>runMutation\<close> chooses between are the values of
  \<open>read_fn\<close>; the transaction itself (\<open>'t\<close>), the posting-list handle (\<open>'pl\<close>) and what
  the methods do are parameters: a read returns a handle or fails and may change the
  transaction's cache, \<^verbatim>\<open>AddMutationWithIndex\<close> returns an optional error and the new
  transaction.
\<close>

type_synonym key = "string \<times> nat"

definition DataKey :: "string \<Rightarrow> nat \<Rightarrow> key" where
  "DataKey attr entity = (attr, entity)"

datatype read_fn = GetScalarList | Get | GetFromDelta

record ('t, 'pl) posting_txn =
  txn_read :: "read_fn \<Rightarrow> key \<Rightarrow> 't \<Rightarrow> (string + 'pl) \<times> 't"
  AddMutationWithIndex :: "'pl \<Rightarrow> DirectedEdge \<Rightarrow> 't \<Rightarrow> string option \<times> 't"

text \<open>The \<^verbatim>\<open>switch\<close> of \<^verbatim>\<open>runMutation\<close> that assigns \<^verbatim>\<open>getFn\<close>; the first case that holds wins.\<close>

definition getFn :: "DirectedEdge \<Rightarrow> SchemaUpdate \<Rightarrow> read_fn" where
  "getFn edge su =
     (let isList = su_List su in
      if length (Lang edge) = 0 \<and> \<not> isList then GetScalarList
      else if length (Lang edge) > 0 \<or> su_Count su then Get
      else if Op edge = DEL then Get
      else GetFromDelta)"

definition runMutation ::
  "env \<Rightarrow> ('t, 'pl) posting_txn \<Rightarrow> schema_state \<Rightarrow> DirectedEdge \<Rightarrow> 't \<Rightarrow> error option \<times> 't" where
  "runMutation env ops st edge txn =
     (case state_Get True st (Attr edge) of
        (su, ok) \<Rightarrow>
          if Op edge \<noteq> DEL \<and> \<not> ok then (Some (ErrSchemaNotFound (Attr edge)), txn)
          else if isDeletePredicateEdge env edge then (Some ErrNeverReach, txn)
          else
            (case ValidateAndConvert env edge su of
               Inl err \<Rightarrow> (Some err, txn)
             | Inr edge' \<Rightarrow>
                 (let k = DataKey (Attr edge') (Entity edge') in
                  case txn_read ops (getFn edge' su) k txn of
                    (Inl m, txn') \<Rightarrow> (Some (ErrStore m), txn')
                  | (Inr plist, txn') \<Rightarrow>
                      (case AddMutationWithIndex ops plist edge' txn' of
                         (None, txn'') \<Rightarrow> (None, txn'')
                       | (Some m, txn'') \<Rightarrow> (Some (ErrStore m), txn'')))))"

section \<open>Example instances\<close>

text \<open>
  Concrete collaborators on which the model is evaluated: the star constant of Dgraph,
  attributes without namespace prefix, internal predicates named \<open>dgraph.\<close>, the empty
  posting bit \<open>0x10\<close>, a conversion that reads a one-digit decimal as an
  integer and leaves other values as they are, a marshaller that writes an integer back as
  its digit, and a transaction that logs every read and every applied edge.
\<close>

definition digits :: "(char \<times> int) list" where
  "digits = [(CHR ''0'', 0), (CHR ''1'', 1), (CHR ''2'', 2), (CHR ''3'', 3), (CHR ''4'', 4),
             (CHR ''5'', 5), (CHR ''6'', 6), (CHR ''7'', 7), (CHR ''8'', 8), (CHR ''9'', 9)]"

definition demoConvert :: "Val \<Rightarrow> ValType \<Rightarrow> string + Val" where
  "demoConvert v t =
     (if t = IntID then
        (case Val_Value v of
           ABytes [c] \<Rightarrow>
             (case map_of digits c of
                Some n \<Rightarrow> Inr \<lparr>Tid = IntID, Val_Value = AInt64 n\<rparr>
              | None \<Rightarrow> Inl ''not an integer'')
         | _ \<Rightarrow> Inl ''not an integer'')
      else Inr \<lparr>Tid = t, Val_Value = Val_Value v\<rparr>)"

definition demoMarshal :: "Val \<Rightarrow> string + go_any" where
  "demoMarshal v =
     (case Val_Value v of
        AInt64 n \<Rightarrow>
          (case map_of (map (\<lambda>(c, k). (k, c)) digits) n of
             Some c \<Rightarrow> Inr (ABytes [c])
           | None \<Rightarrow> Inl ''cannot marshal'')
      | ABytes b \<Rightarrow> Inr (ABytes b)
      | AOther \<Rightarrow> Inl ''cannot marshal'')"

definition demoEnv :: "bool \<Rightarrow> env" where
  "demoEnv acl =
     \<lparr>Star = ''_STAR_ALL'', AclEnabled = acl, ParseAttr = (\<lambda>a. a),
      posting_TypeID = (\<lambda>e. if ValueId e \<noteq> 0 then UidID else ValueType e),
      Convert = demoConvert, Marshal = demoMarshal,
      IsInternalPredicate = (\<lambda>a. take 7 a = ''dgraph.''),
      HasTokenizerOrVectorIndexSpec = (\<lambda>s. su_Tokenizer s \<noteq> []),
      BitEmptyPosting = 0x10\<rparr>"

datatype event = Read read_fn key | Added key DirectedEdge

definition logTxn :: "(event list, key) posting_txn" where
  "logTxn =
     \<lparr>txn_read = (\<lambda>f k t. (Inr k, t @ [Read f k])),
      AddMutationWithIndex = (\<lambda>pl e t. (None, t @ [Added pl e]))\<rparr>"

definition stringSchema :: "string \<Rightarrow> SchemaUpdate" where
  "stringSchema p = zeroSchemaUpdate\<lparr>su_Predicate := p, su_ValueType := StringID\<rparr>"

definition stateOf :: "SchemaUpdate list \<Rightarrow> schema_state" where
  "stateOf sus = \<lparr>predicate = map_of (map (\<lambda>s. (su_Predicate s, s)) sus), mutSchema = Map.empty\<rparr>"

definition mkEdge :: "nat \<Rightarrow> string \<Rightarrow> string \<Rightarrow> ValType \<Rightarrow> string \<Rightarrow> DirectedEdge_Op \<Rightarrow> DirectedEdge" where
  "mkEdge ent attr v vt lang op =
     \<lparr>Entity = ent, Attr = attr, Value = v, ValueType = vt, ValueId = 0, Lang = lang, Op = op\<rparr>"

text \<open>
  When an edge gets past the star bypasses and the type checks of \<^verbatim>\<open>ValidateAndConvert\<close> so
  that its value is converted, and to which type \<open>T\<close>: the language rule holds, both types
  are scalar, and either the schema type is vector and the storage type is vector, string or
  default; or the schema has no type yet and the storage type is taken; or the storage type
  differs from the schema's.
\<close>

definition convertsTo :: "env \<Rightarrow> DirectedEdge \<Rightarrow> SchemaUpdate \<Rightarrow> ValType \<Rightarrow> bool" where
  "convertsTo env edge su T =
     (let storageType = posting_TypeID env edge; schemaType = su_ValueType su in
      \<not> isDeletePredicateEdge env edge \<and>
      \<not> (ValueType edge = DefaultID \<and> isStarAll env (Value edge)) \<and>
      (Lang edge = [] \<or> su_Lang su) \<and>
      IsScalar schemaType \<and> IsScalar storageType \<and>
      (if schemaType = VFloatID
         then (storageType = VFloatID \<or> storageType = StringID \<or> storageType = DefaultID) \<and>
              T = VFloatID
       else if schemaType = DefaultID then T = storageType
       else storageType \<noteq> schemaType \<and> T = schemaType))"

section \<open>The mutation router\<close>

record TypeUpdate =
  TypeName :: string
  Fields :: "SchemaUpdate list"

text \<open>
  \<^verbatim>\<open>pb.Mutations\<close>. \<^verbatim>\<open>DropOp\<close> is an enumeration whose zero is "no drop"; \<^verbatim>\<open>Metadata\<close> is a
  pointer to the predicate hints, \<open>None\<close> when nil.
\<close>

record Mutations =
  GroupId :: nat
  StartTs :: nat
  Edges :: "DirectedEdge list"
  Schema :: "SchemaUpdate list"
  Types :: "TypeUpdate list"
  DropOp :: nat
  DropValue :: string
  Metadata :: "(string \<times> nat) list option"

text \<open>The Go value \<^verbatim>\<open>&pb.Mutations{GroupId: gid}\<close>.\<close>

definition newMutations :: "nat \<Rightarrow> Mutations" where
  "newMutations gid =
     \<lparr>GroupId = gid, StartTs = 0, Edges = [], Schema = [], Types = [], DropOp = 0,
      DropValue = [], Metadata = None\<rparr>"

record TxnContext =
  tc_StartTs :: nat
  CommitTs :: nat
  Aborted :: bool
  Keys :: "string list"
  Preds :: "string list"

definition newTxnContext :: "nat \<Rightarrow> TxnContext" where
  "newTxnContext ts = \<lparr>tc_StartTs = ts, CommitTs = 0, Aborted = False, Keys = [], Preds = []\<rparr>"

text \<open>The result a shard dispatch writes to the channel: \<^verbatim>\<open>type res struct\<close>.\<close>

record res =
  err :: "error option"
  ctx :: "TxnContext option"

text \<open>
  What a call to the leader of another group ends with, as \<^verbatim>\<open>proposeOrSend\<close> sees it in its
  \<^verbatim>\<open>select\<close>: the caller's context is done first, or the reply arrives (an error or none, a
  transaction context or nil).
\<close>

datatype remote_outcome = Cancelled string | Replied "string option" "TxnContext option"

text \<open>
  What the router takes from the membership, oracle, consensus and network collaborators,
  none of which is among the sources: \<^verbatim>\<open>groups().BelongsTo\<close>, \<^verbatim>\<open>KnownGroups\<close>, \<^verbatim>\<open>ServesGroup\<close>,
  whether \<^verbatim>\<open>Leader(gid)\<close> gives a connection, \<^verbatim>\<open>x.ParseNamespaceAttr\<close>, \<^verbatim>\<open>x.NamespaceAttr\<close>,
  \<^verbatim>\<open>GetSchemaOverNetwork\<close> (the predicates of the schema nodes it returns),
  \<^verbatim>\<open>x.WorkerConfig.StrictMutations\<close>, \<^verbatim>\<open>posting.Oracle().WaitForTs\<close>, the consensus node's
  \<^verbatim>\<open>proposeAndWait\<close>, \<^verbatim>\<open>posting.Oracle().GetTxn(startTs)\<close> with its \<^verbatim>\<open>FillContext\<close> for this group
  (\<open>None\<close> when the oracle has no such transaction), and the call \<^verbatim>\<open>c.Mutate\<close> on another
  group's leader. They are parameters of the model.
\<close>

record cluster =
  BelongsTo :: "string \<Rightarrow> string + nat"
  KnownGroups :: "nat list"
  ServesGroup :: "nat \<Rightarrow> bool"
  Leader :: "nat \<Rightarrow> bool"
  ParseNamespaceAttr :: "string \<Rightarrow> nat \<times> string"
  NamespaceAttr :: "nat \<Rightarrow> string \<Rightarrow> string"
  GetSchemaOverNetwork :: "string list \<Rightarrow> string + string list"
  StrictMutations :: bool
  WaitForTs :: "nat \<Rightarrow> string option"
  node_proposeAndWait :: "Mutations \<Rightarrow> string option"
  FillContext :: "nat \<Rightarrow> (TxnContext \<Rightarrow> bool \<Rightarrow> TxnContext) option"
  remoteMutate :: "nat \<Rightarrow> Mutations \<Rightarrow> remote_outcome"

subsection \<open>populateMutationMap\<close>

text \<open>
  The Go map from group id to \<^verbatim>\<open>*pb.Mutations\<close> is an association list with one entry per
  key: \<^verbatim>\<open>mm[gid]\<close> is \<open>map_of mm gid\<close>, and writing through the pointer \<^verbatim>\<open>mu\<close> (after
  \<^verbatim>\<open>mm[gid] = mu\<close> for a new one) is \<open>AList.update gid\<close>. The order of the list stands for
  nothing: Go iterates a map in no fixed order.
\<close>

type_synonym mutationMap = "(nat \<times> Mutations) list"

definition entry :: "mutationMap \<Rightarrow> nat \<Rightarrow> Mutations" where
  "entry mm gid = (case map_of mm gid of None \<Rightarrow> newMutations gid | Some mu \<Rightarrow> mu)"

fun addEdges :: "cluster \<Rightarrow> Mutations \<Rightarrow> DirectedEdge list \<Rightarrow> mutationMap \<Rightarrow> error + mutationMap" where
  "addEdges grp src [] mm = Inr mm"
| "addEdges grp src (edge # rest) mm =
     (case BelongsTo grp (Attr edge) of
        Inl m \<Rightarrow> Inl (ErrBelongsTo m)
      | Inr gid \<Rightarrow>
          (let mu = entry mm gid in
           addEdges grp src rest
             (AList.update gid (mu\<lparr>Edges := Edges mu @ [edge], Metadata := Metadata src\<rparr>) mm)))"

fun addSchema :: "cluster \<Rightarrow> SchemaUpdate list \<Rightarrow> mutationMap \<Rightarrow> error + mutationMap" where
  "addSchema grp [] mm = Inr mm"
| "addSchema grp (schema # rest) mm =
     (case BelongsTo grp (su_Predicate schema) of
        Inl m \<Rightarrow> Inl (ErrBelongsTo m)
      | Inr gid \<Rightarrow>
          (let mu = entry mm gid in
           addSchema grp rest (AList.update gid (mu\<lparr>Schema := Schema mu @ [schema]\<rparr>) mm)))"

fun addDrop :: "Mutations \<Rightarrow> nat list \<Rightarrow> mutationMap \<Rightarrow> mutationMap" where
  "addDrop src [] mm = mm"
| "addDrop src (gid # rest) mm =
     (let mu = entry mm gid in
      addDrop src rest (AList.update gid (mu\<lparr>DropOp := DropOp src, DropValue := DropValue src\<rparr>) mm))"

fun addTypes :: "Mutations \<Rightarrow> nat list \<Rightarrow> mutationMap \<Rightarrow> mutationMap" where
  "addTypes src [] mm = mm"
| "addTypes src (gid # rest) mm =
     (let mu = entry mm gid in
      addTypes src rest (AList.update gid (mu\<lparr>Types := Types src\<rparr>) mm))"

definition populateMutationMap :: "cluster \<Rightarrow> Mutations \<Rightarrow> error + mutationMap" where
  "populateMutationMap grp src =
     (case addEdges grp src (Edges src) [] of
        Inl e \<Rightarrow> Inl e
      | Inr mm1 \<Rightarrow>
          (case addSchema grp (Schema src) mm1 of
             Inl e \<Rightarrow> Inl e
           | Inr mm2 \<Rightarrow>
               (let mm3 = (if DropOp src > 0 then addDrop src (KnownGroups grp) mm2 else mm2);
                    mm4 = (if length (Types src) > 0 then addTypes src (KnownGroups grp) mm3
                           else mm3)
                in Inr mm4)))"

subsection \<open>verifyTypes\<close>

fun typeSanityCheck :: "env \<Rightarrow> SchemaUpdate list \<Rightarrow> error option" where
  "typeSanityCheck env [] = None"
| "typeSanityCheck env (field # rest) =
     (if ParseAttr env (su_Predicate field) = [] then Some ErrFieldNoName
      else if su_ValueType field = ObjectID \<and> su_ObjectTypeName field = []
        then Some ErrObjectTypeNameMissing
      else if su_Directive field \<noteq> NONE then Some ErrFieldDirective
      else if length (su_Tokenizer field) > 0 then Some ErrFieldTokenizer
      else typeSanityCheck env rest)"

text \<open>
  The name a type's field is looked up under: the predicate, or for a reverse field
  (\<^verbatim>\<open>~pred\<close>) the predicate it reverses. \<^verbatim>\<open>attr[0]\<close> panics on an empty attribute.
\<close>

definition fieldName :: "cluster \<Rightarrow> SchemaUpdate \<Rightarrow> error + string" where
  "fieldName grp field =
     (case ParseNamespaceAttr grp (su_Predicate field) of
        (ns, attr) \<Rightarrow>
          (case attr of
             [] \<Rightarrow> Inl PanicIndexOutOfRange
           | c # rest \<Rightarrow>
               if c = CHR ''~'' then Inr (NamespaceAttr grp ns rest)
               else Inr (su_Predicate field)))"

text \<open>The first pass: the fields that are not declared by the request itself.\<close>

fun missingFields :: "cluster \<Rightarrow> string list \<Rightarrow> SchemaUpdate list \<Rightarrow> string list \<Rightarrow> error + string list" where
  "missingFields grp reqPredSet [] flds = Inr flds"
| "missingFields grp reqPredSet (field # rest) flds =
     (case fieldName grp field of
        Inl e \<Rightarrow> Inl e
      | Inr name \<Rightarrow>
          missingFields grp reqPredSet rest
            (if name \<notin> set reqPredSet then flds @ [name] else flds))"

fun missingOfTypes :: "env \<Rightarrow> cluster \<Rightarrow> string list \<Rightarrow> TypeUpdate list \<Rightarrow> string list \<Rightarrow> error + string list" where
  "missingOfTypes env grp reqPredSet [] flds = Inr flds"
| "missingOfTypes env grp reqPredSet (t # rest) flds =
     (if TypeName t = [] then Inl ErrTypeNameMissing
      else
        (case typeSanityCheck env (Fields t) of
           Some e \<Rightarrow> Inl e
         | None \<Rightarrow>
             (case missingFields grp reqPredSet (Fields t) flds of
                Inl e \<Rightarrow> Inl e
              | Inr flds' \<Rightarrow> missingOfTypes env grp reqPredSet rest flds')))"

text \<open>The second pass: every field is in the cluster's schema or in the request.\<close>

fun fieldsKnown :: "cluster \<Rightarrow> string list \<Rightarrow> string list \<Rightarrow> string \<Rightarrow> SchemaUpdate list \<Rightarrow> error option" where
  "fieldsKnown grp schemaSet reqPredSet typeName [] = None"
| "fieldsKnown grp schemaSet reqPredSet typeName (field # rest) =
     (case fieldName grp field of
        Inl e \<Rightarrow> Some e
      | Inr name \<Rightarrow>
          if name \<notin> set schemaSet \<and> name \<notin> set reqPredSet
          then Some (ErrNoMatchingPredicate (su_Predicate field) typeName)
          else fieldsKnown grp schemaSet reqPredSet typeName rest)"

fun typesKnown :: "cluster \<Rightarrow> string list \<Rightarrow> string list \<Rightarrow> TypeUpdate list \<Rightarrow> error option" where
  "typesKnown grp schemaSet reqPredSet [] = None"
| "typesKnown grp schemaSet reqPredSet (t # rest) =
     (case fieldsKnown grp schemaSet reqPredSet (TypeName t) (Fields t) of
        Some e \<Rightarrow> Some e
      | None \<Rightarrow> typesKnown grp schemaSet reqPredSet rest)"

definition verifyTypes :: "env \<Rightarrow> cluster \<Rightarrow> Mutations \<Rightarrow> error option" where
  "verifyTypes env grp m =
     (let reqPredSet = map su_Predicate (Schema m) in
      case missingOfTypes env grp reqPredSet (Types m) [] of
        Inl e \<Rightarrow> Some e
      | Inr flds \<Rightarrow>
          (case GetSchemaOverNetwork grp flds of
             Inl msg \<Rightarrow> Some (ErrSchemaRetrieve msg)
           | Inr schemaSet \<Rightarrow> typesKnown grp schemaSet reqPredSet (Types m)))"

subsection \<open>Dispatch to one shard\<close>

definition state_TypeOf :: "schema_state \<Rightarrow> string \<Rightarrow> error + ValType" where
  "state_TypeOf st pred =
     (case predicate st pred of
        Some s \<Rightarrow> Inr (su_ValueType s)
      | None \<Rightarrow> Inl (ErrSchemaNotDefined pred))"

fun strictCheck :: "schema_state \<Rightarrow> DirectedEdge list \<Rightarrow> error option" where
  "strictCheck st [] = None"
| "strictCheck st (edge # rest) =
     (case state_TypeOf st (Attr edge) of
        Inl e \<Rightarrow> Some e
      | Inr t \<Rightarrow> strictCheck st rest)"

definition fillTxnContext :: "cluster \<Rightarrow> TxnContext \<Rightarrow> nat \<Rightarrow> bool \<Rightarrow> TxnContext" where
  "fillTxnContext grp tctx startTs isErrored =
     (case FillContext grp startTs of
        Some fill \<Rightarrow> fill tctx isErrored
      | None \<Rightarrow> tctx)"

text \<open>\<^verbatim>\<open>(*grpcWorker).proposeAndWait\<close>: the error and the transaction context it has filled.\<close>

definition proposeAndWait ::
  "cluster \<Rightarrow> schema_state \<Rightarrow> TxnContext \<Rightarrow> Mutations \<Rightarrow> error option \<times> TxnContext" where
  "proposeAndWait grp st txnCtx m =
     (case (if StrictMutations grp then strictCheck st (Edges m) else None) of
        Some e \<Rightarrow> (Some e, txnCtx)
      | None \<Rightarrow>
          (case WaitForTs grp (StartTs m) of
             Some msg \<Rightarrow> (Some (ErrOracle msg), txnCtx)
           | None \<Rightarrow>
               (let e = node_proposeAndWait grp m in
                (map_option ErrPropose e, fillTxnContext grp txnCtx (StartTs m) (e \<noteq> None)))))"

definition proposeOrSend :: "cluster \<Rightarrow> schema_state \<Rightarrow> nat \<Rightarrow> Mutations \<Rightarrow> res" where
  "proposeOrSend grp st gid m =
     (if ServesGroup grp gid then
        (case proposeAndWait grp st (newTxnContext 0) m of
           (e, c) \<Rightarrow> \<lparr>err = e, ctx = Some c\<rparr>)
      else if \<not> Leader grp gid then \<lparr>err = Some ErrNoConnection, ctx = None\<rparr>
      else
        (case remoteMutate grp gid m of
           Cancelled msg \<Rightarrow> \<lparr>err = Some (ErrContext msg), ctx = None\<rparr>
         | Replied e tc \<Rightarrow> \<lparr>err = map_option ErrRemote e, ctx = tc\<rparr>))"

subsection \<open>MutateOverNetwork\<close>

text \<open>
  Two orders are left open by the source and are parameters of the model: the order in which
  \<^verbatim>\<open>range mutationMap\<close> visits the groups, and the order in which the shards' results arrive
  on the channel. Each is a rearrangement of the list it is given.
\<close>

record sched =
  iterOrder :: "mutationMap \<Rightarrow> mutationMap"
  arrival :: "res list \<Rightarrow> res list"

text \<open>
  The first loop: the dispatches started (group and mutation, with the start timestamp set),
  and whether the loop ran to its end; it stops at group id 0.
\<close>

fun dispatch :: "nat \<Rightarrow> mutationMap \<Rightarrow> mutationMap \<times> bool" where
  "dispatch ts [] = ([], True)"
| "dispatch ts ((gid, mu) # rest) =
     (if gid = 0 then ([], False)
      else (case dispatch ts rest of
              (started, fin) \<Rightarrow> ((gid, mu\<lparr>StartTs := ts\<rparr>) # started, fin)))"

text \<open>The second loop: one result per group, in the order of arrival.\<close>

fun collect :: "TxnContext \<Rightarrow> error option \<Rightarrow> res list \<Rightarrow> TxnContext \<times> error option" where
  "collect tctx e [] = (tctx, e)"
| "collect tctx e (r # rest) =
     collect
       (case ctx r of
          None \<Rightarrow> tctx
        | Some c \<Rightarrow> tctx\<lparr>Keys := Keys tctx @ Keys c, Preds := Preds tctx @ Preds c\<rparr>)
       (case err r of None \<Rightarrow> e | Some x \<Rightarrow> Some x)
       rest"

text \<open>
  The value returned, and next to it the dispatches that were started, which go on
  whether or not the call waits for them.
\<close>

definition MutateOverNetwork ::
  "env \<Rightarrow> cluster \<Rightarrow> schema_state \<Rightarrow> sched \<Rightarrow> Mutations \<Rightarrow>
     (TxnContext \<times> error option) \<times> mutationMap" where
  "MutateOverNetwork env grp st sch m =
     (let tctx = newTxnContext (StartTs m) in
      case verifyTypes env grp m of
        Some e \<Rightarrow> ((tctx, Some e), [])
      | None \<Rightarrow>
          (case populateMutationMap grp m of
             Inl e \<Rightarrow> ((tctx, Some e), [])
           | Inr mutationMap \<Rightarrow>
               (case dispatch (StartTs m) (iterOrder sch mutationMap) of
                  (started, False) \<Rightarrow> ((tctx, Some ErrNonExistentTablet), started)
                | (started, True) \<Rightarrow>
                    (collect tctx None
                       (arrival sch (map (\<lambda>(gid, mu). proposeOrSend grp st gid mu) started)),
                     started))))"

text \<open>
  The results of the shards of a partition: what \<^verbatim>\<open>proposeOrSend\<close> gives for each group with
  its mutation, the start timestamp set.
\<close>

definition shardResults :: "cluster \<Rightarrow> schema_state \<Rightarrow> nat \<Rightarrow> mutationMap \<Rightarrow> res list" where
  "shardResults grp st ts mm = map (\<lambda>(gid, mu). proposeOrSend grp st gid (mu\<lparr>StartTs := ts\<rparr>)) mm"

text \<open>
  An example cluster: group 1 owns \<open>name\<close> and is served by this node, group 2 owns \<open>friend\<close>
  and its leader refuses the connection, \<open>lost\<close> has no tablet (group 0), group 3 is known
  but owns nothing here; a schedule that visits the groups in list order and receives the
  results in reverse.
\<close>

definition demoCluster :: cluster where
  "demoCluster =
     \<lparr>BelongsTo = (\<lambda>a. if a = ''name'' then Inr 1 else if a = ''friend'' then Inr 2
                       else if a = ''lost'' then Inr 0 else Inl ''no zero leader''),
      KnownGroups = [1, 2, 3],
      ServesGroup = (\<lambda>g. g = 1),
      Leader = (\<lambda>g. g = 2),
      ParseNamespaceAttr = (\<lambda>a. (0, a)),
      NamespaceAttr = (\<lambda>ns a. a),
      GetSchemaOverNetwork = (\<lambda>fs. Inr []),
      StrictMutations = False,
      WaitForTs = (\<lambda>ts. None),
      node_proposeAndWait = (\<lambda>m. None),
      FillContext = (\<lambda>ts. Some (\<lambda>c isErrored. c\<lparr>Keys := Keys c @ [''k1''],
                                                   Preds := Preds c @ [''1-name'']\<rparr>)),
      remoteMutate = (\<lambda>g m. Replied (Some ''connection refused'') None)\<rparr>"

definition demoSched :: sched where
  "demoSched = \<lparr>iterOrder = (\<lambda>l. l), arrival = rev\<rparr>"

definition batch :: "nat \<Rightarrow> DirectedEdge list \<Rightarrow> Mutations" where
  "batch ts es = (newMutations 0)\<lparr>StartTs := ts, Edges := es\<rparr>"

section \<open>Schema validation\<close>

text \<open>
  The key-value store as \<^verbatim>\<open>hasEdges\<close> reads it: the items that an iterator over the data
  prefix of a predicate yields in a read transaction at a timestamp, in key order. An item
  has a user meta byte and a value (\<open>'v\<close>, the postings it encodes), which the iterator
  does not fetch (\<^verbatim>\<open>PrefetchValues = false\<close>).
\<close>

record 'v item =
  UserMeta :: "8 word"
  item_value :: 'v

type_synonym 'v pstore = "string \<Rightarrow> nat \<Rightarrow> 'v item list"

text \<open>The loop of \<^verbatim>\<open>hasEdges\<close>: true at the first item whose empty-posting bit is clear.\<close>

fun anyNonEmpty :: "env \<Rightarrow> 'v item list \<Rightarrow> bool" where
  "anyNonEmpty env [] = False"
| "anyNonEmpty env (it # rest) =
     (if UserMeta it AND BitEmptyPosting env = 0 then True else anyNonEmpty env rest)"

definition hasEdges :: "env \<Rightarrow> 'v pstore \<Rightarrow> string \<Rightarrow> nat \<Rightarrow> bool" where
  "hasEdges env store attr startTs = anyNonEmpty env (store attr startTs)"

definition MaxUint64 :: nat where
  "MaxUint64 = 2 ^ 64 - 1"

definition state_IsList :: "schema_state \<Rightarrow> string \<Rightarrow> bool" where
  "state_IsList st pred = (case predicate st pred of Some s \<Rightarrow> su_List s | None \<Rightarrow> False)"

definition validTokenizer :: "string list \<Rightarrow> bool" where
  "validTokenizer tokenizers =
     list_ex (\<lambda>v. v = ''hash'' \<or> v = ''exact'' \<or> v = ''int'') tokenizers"

text \<open>
  \<^verbatim>\<open>validateSchemaForUnique\<close> writes \<^verbatim>\<open>Upsert = true\<close> through the pointer; the model returns
  the update next to the error.
\<close>

definition validateSchemaForUnique ::
  "env \<Rightarrow> SchemaUpdate \<Rightarrow> SchemaUpdate \<Rightarrow> error option \<times> SchemaUpdate" where
  "validateSchemaForUnique env prevSchema currentSchema =
     (if su_Predicate prevSchema \<noteq> [] \<and> su_Upsert prevSchema \<and> \<not> su_Upsert currentSchema
        then (Some (ErrDropUpsert (ParseAttr env (su_Predicate currentSchema))), currentSchema)
      else if su_Predicate prevSchema \<noteq> [] \<and> su_Unique prevSchema \<and>
              \<not> validTokenizer (su_Tokenizer currentSchema)
        then (Some (ErrDropUniqueIndex (su_Tokenizer prevSchema)
                      (ParseAttr env (su_Predicate currentSchema))), currentSchema)
      else
        (let cur = (if \<not> su_Upsert currentSchema then currentSchema\<lparr>su_Upsert := True\<rparr>
                    else currentSchema)
         in
         if su_ValueType cur = StringID then
           (if length (su_Tokenizer cur) = 0 \<or>
               (length (su_Tokenizer cur) > 0 \<and> \<not> validTokenizer (su_Tokenizer cur))
            then (Some (ErrUniqueIndexMissingString (ParseAttr env (su_Predicate cur))), cur)
            else (None, cur))
         else if su_ValueType cur = IntID then
           (if length (su_Tokenizer cur) = 0
            then (Some (ErrUniqueIndexMissingInt (ParseAttr env (su_Predicate cur))), cur)
            else (None, cur))
         else (Some (ErrUniqueUnsupported (su_ValueType cur)), cur)))"

text \<open>
  The end of \<^verbatim>\<open>checkSchema\<close>, from \<^verbatim>\<open>schema.State().TypeOf\<close> on: the checks against the schema
  the predicate already has.
\<close>

definition checkTypeChange ::
  "env \<Rightarrow> 'v pstore \<Rightarrow> schema_state \<Rightarrow> SchemaUpdate \<Rightarrow> error option" where
  "checkTypeChange env store st s =
     (let typ = su_ValueType s in
      case state_TypeOf st (su_Predicate s) of
        Inl e \<Rightarrow> None
      | Inr t \<Rightarrow>
          if IsScalar t \<and> (t = PasswordID \<or> su_ValueType s = PasswordID) then
            (if t \<noteq> su_ValueType s then Some (ErrTypeChange t typ) else None)
          else if IsScalar t = IsScalar typ then
            (if state_IsList st (su_Predicate s) \<and> \<not> su_List s \<and>
                hasEdges env store (su_Predicate s) MaxUint64
             then Some (ErrListToNonList t typ (ParseAttr env (su_Predicate s)))
             else None)
          else
            (if hasEdges env store (su_Predicate s) MaxUint64
             then Some (ErrUidScalarFlip (ParseAttr env (su_Predicate s)))
             else None))"

text \<open>
  \<^verbatim>\<open>checkSchema\<close> takes a pointer, \<open>None\<close> when nil. It returns the error, or the accepted
  update, in which the uniqueness check may have set \<^verbatim>\<open>Upsert\<close>.
\<close>

definition checkSchema ::
  "env \<Rightarrow> 'v pstore \<Rightarrow> schema_state \<Rightarrow> SchemaUpdate option \<Rightarrow> error + SchemaUpdate" where
  "checkSchema env store st sp =
     (case sp of
        None \<Rightarrow> Inl ErrNilSchema
      | Some s \<Rightarrow>
          if ParseAttr env (su_Predicate s) = [] then Inl ErrNoPredicate
          else if IsInternalPredicate env (su_Predicate s)
            then Inl (ErrInternalName (ParseAttr env (su_Predicate s)))
          else if su_Directive s = INDEX \<and> \<not> HasTokenizerOrVectorIndexSpec env s
            then Inl (ErrTokenizerMissing s)
          else if HasTokenizerOrVectorIndexSpec env s \<and> su_Directive s \<noteq> INDEX
            then Inl ErrDirectiveNotIndex
          else if su_ValueType s = UidID \<and> su_Directive s = INDEX
            then Inl (ErrIndexOnUid (ParseAttr env (su_Predicate s)))
          else if su_ValueType s \<noteq> UidID \<and> su_Directive s = REVERSE
            then Inl (ErrReverseNonUid (ParseAttr env (su_Predicate s)))
          else if su_Upsert s \<and> length (su_Tokenizer s) = 0 \<and> \<not> su_Unique s
            then Inl (ErrUpsertNeedsIndex (ParseAttr env (su_Predicate s)))
          else
            (case (if su_Unique s
                   then validateSchemaForUnique env (fst (state_Get False st (su_Predicate s))) s
                   else (None, s)) of
               (Some e, s') \<Rightarrow> Inl e
             | (None, s') \<Rightarrow>
                 (case checkTypeChange env store st s' of
                    Some e \<Rightarrow> Inl e
                  | None \<Rightarrow> Inr s')))"

text \<open>
  Example store contents: a posting list holding a value; one whose two deltas, a set and a
  delete of the same uid, sum to nothing but whose item is not marked empty (\<open>0x04\<close>, a
  delta); and one whose item is marked empty (\<open>0x10\<close>).
\<close>

definition demoStore :: "(DirectedEdge_Op \<times> nat) list pstore" where
  "demoStore attr ts =
     (if attr = ''friend'' then [\<lparr>UserMeta = 0x04, item_value = [(SET, 5)]\<rparr>]
      else if attr = ''secret'' then [\<lparr>UserMeta = 0x08, item_value = [(SET, 7)]\<rparr>]
      else if attr = ''gone'' then [\<lparr>UserMeta = 0x04, item_value = [(SET, 5), (DEL, 5)]\<rparr>]
      else if attr = ''empty'' then [\<lparr>UserMeta = 0x10, item_value = []\<rparr>]
      else [])"

definition pwSchema :: "bool \<Rightarrow> SchemaUpdate" where
  "pwSchema l =
     zeroSchemaUpdate\<lparr>su_Predicate := ''secret'', su_ValueType := PasswordID, su_List := l\<rparr>"

definition uidSchema :: "string \<Rightarrow> bool \<Rightarrow> SchemaUpdate" where
  "uidSchema p l = zeroSchemaUpdate\<lparr>su_Predicate := p, su_ValueType := UidID, su_List := l\<rparr>"

section \<open>Index rebuild and rollback\<close>

text \<open>
  The state a schema change works on: the in-memory schema state, the durable schema
  records of the store (by predicate, as \<^verbatim>\<open>x.SchemaKey\<close> keys them), and two counters kept
  for the statements only: the calls of \<^verbatim>\<open>schema.Load\<close> made so far and the milliseconds
  slept between retries.
\<close>

record world =
  mem :: schema_state
  disk :: "string \<rightharpoonup> SchemaUpdate"
  loads :: nat
  slept :: nat

text \<open>A call returns, or the process is terminated (\<^verbatim>\<open>glog.Fatalf\<close>, \<^verbatim>\<open>x.Check\<close>) in some state.\<close>

datatype 'a outcome = Returned 'a | Fatal string world

record IndexRebuild =
  ir_Attr :: string
  ir_StartTs :: nat
  OldSchema :: SchemaUpdate
  CurrentSchema :: SchemaUpdate

text \<open>
  What the rebuild takes from the index builder, the store and the throttle, none of which
  is among the sources: whether \<^verbatim>\<open>rebuild.BuildIndexes\<close>, \<^verbatim>\<open>proto.Marshal\<close>, \<^verbatim>\<open>txn.SetEntry\<close>,
  \<^verbatim>\<open>txn.CommitAt\<close> and \<^verbatim>\<open>throttle.Do\<close> fail, and whether the read of the store in
  \<^verbatim>\<open>schema.Load\<close> fails, given the predicate and the number of loads made before. They are
  parameters of the model; the index entries themselves are not part of the state.
\<close>

record storage =
  BuildIndexes :: "IndexRebuild \<Rightarrow> string option"
  marshalErr :: "SchemaUpdate \<Rightarrow> string option"
  setEntryErr :: "string \<Rightarrow> nat \<Rightarrow> string option"
  commitErr :: "string \<Rightarrow> nat \<Rightarrow> string option"
  loadErr :: "string \<Rightarrow> nat \<Rightarrow> string option"
  throttleErr :: "string option"

text \<open>
  \<^verbatim>\<open>schema.State().Set\<close> and \<^verbatim>\<open>DeleteMutSchema\<close> on the schema state as modelled above.
\<close>

definition state_Set :: "string \<Rightarrow> SchemaUpdate \<Rightarrow> schema_state \<Rightarrow> schema_state" where
  "state_Set pred s st = st\<lparr>predicate := (predicate st)(pred \<mapsto> s)\<rparr>"

definition state_DeleteMutSchema :: "string \<Rightarrow> schema_state \<Rightarrow> schema_state" where
  "state_DeleteMutSchema pred st = st\<lparr>mutSchema := (mutSchema st)(pred := None)\<rparr>"

text \<open>
  \<^verbatim>\<open>updateSchema\<close>: the schema is set in memory, then written and committed to the store; a
  failed write or commit leaves the store as it was.
\<close>

definition updateSchema ::
  "storage \<Rightarrow> SchemaUpdate \<Rightarrow> nat \<Rightarrow> world \<Rightarrow> (error option \<times> world) outcome" where
  "updateSchema sto s ts w =
     (let w1 = w\<lparr>mem := state_DeleteMutSchema (su_Predicate s)
                          (state_Set (su_Predicate s) s (mem w))\<rparr>
      in
      case marshalErr sto s of
        Some m \<Rightarrow> Fatal m w1
      | None \<Rightarrow>
          (case setEntryErr sto (su_Predicate s) ts of
             Some m \<Rightarrow> Returned (Some (ErrStore m), w1)
           | None \<Rightarrow>
               (case commitErr sto (su_Predicate s) ts of
                  Some m \<Rightarrow> Returned (Some (ErrStore m), w1)
                | None \<Rightarrow> Returned (None, w1\<lparr>disk := (disk w1)(su_Predicate s \<mapsto> s)\<rparr>))))"

text \<open>
  Modelled from the spec: \<^verbatim>\<open>schema.Load\<close> of package schema, which is not among the sources.
  "The predicate's schema is reloaded from durable storage": the read may fail; when it
  succeeds, the schema in memory becomes the durable record, if there is one, and the
  schema kept for mutations during the rebuild is dropped. The store is only read.
\<close>

definition schema_Load :: "storage \<Rightarrow> string \<Rightarrow> world \<Rightarrow> string option \<times> world" where
  "schema_Load sto pred w =
     (case loadErr sto pred (loads w) of
        Some m \<Rightarrow> (Some m, w\<lparr>loads := loads w + 1\<rparr>)
      | None \<Rightarrow>
          (let st = state_DeleteMutSchema pred (mem w);
               st' = (case disk w pred of None \<Rightarrow> st | Some d \<Rightarrow> state_Set pred d st)
           in (None, w\<lparr>mem := st', loads := loads w + 1\<rparr>)))"

text \<open>
  Modelled from the spec: \<^verbatim>\<open>x.RetryUntilSuccess\<close> of package x, which is not among the
  sources. "A bounded retry loop with fixed backoff", a "retry with budget": the function is
  tried until it succeeds, at most \<open>maxRetries\<close> times, with the same wait after each
  failure; the error of the last try is returned when all of them fail.
\<close>

fun RetryUntilSuccess ::
  "nat \<Rightarrow> nat \<Rightarrow> (world \<Rightarrow> string option \<times> world) \<Rightarrow> string option \<Rightarrow> world \<Rightarrow>
     string option \<times> world" where
  "RetryUntilSuccess 0 waitAfterFailure f e w = (e, w)"
| "RetryUntilSuccess (Suc n) waitAfterFailure f e w =
     (case f w of
        (None, w') \<Rightarrow> (None, w')
      | (Some m, w') \<Rightarrow>
          RetryUntilSuccess n waitAfterFailure f (Some m)
            (w'\<lparr>slept := slept w' + waitAfterFailure\<rparr>))"

definition undoSchemaUpdate :: "storage \<Rightarrow> string \<Rightarrow> world \<Rightarrow> world outcome" where
  "undoSchemaUpdate sto pred w =
     (let maxRetries = 10 in
      case RetryUntilSuccess maxRetries 10 (schema_Load sto pred) None w of
        (None, w') \<Rightarrow> Returned w'
      | (Some m, w') \<Rightarrow> Fatal m w')"

text \<open>The closure \<^verbatim>\<open>buildIndexesHelper\<close> of \<^verbatim>\<open>runSchemaMutation\<close>.\<close>

definition buildIndexesHelper ::
  "storage \<Rightarrow> SchemaUpdate \<Rightarrow> IndexRebuild \<Rightarrow> world \<Rightarrow> (error option \<times> world) outcome" where
  "buildIndexesHelper sto update rebuild w =
     (case BuildIndexes sto rebuild of
        Some m \<Rightarrow> Returned (Some (ErrRebuild m), w)
      | None \<Rightarrow> updateSchema sto update (ir_StartTs rebuild) w)"

text \<open>
  The closure \<^verbatim>\<open>buildIndexes\<close> of \<^verbatim>\<open>runSchemaMutation\<close>, the body of the background task of one
  predicate, from the moment it runs: past \<^verbatim>\<open>wg.Wait()\<close> and with its throttle slot. The
  deferred \<^verbatim>\<open>stopIndexing\<close> and \<^verbatim>\<open>throttle.Done\<close> release the task slot and the throttle and
  do not touch the schema.
\<close>

definition buildIndexes ::
  "storage \<Rightarrow> SchemaUpdate \<Rightarrow> IndexRebuild \<Rightarrow> world \<Rightarrow> world outcome" where
  "buildIndexes sto update rebuild w =
     (case throttleErr sto of
        Some m \<Rightarrow> Fatal m w
      | None \<Rightarrow>
          (case buildIndexesHelper sto update rebuild w of
             Fatal m w' \<Rightarrow> Fatal m w'
           | Returned (None, w') \<Rightarrow> Returned w'
           | Returned (Some e, w') \<Rightarrow> undoSchemaUpdate sto (su_Predicate update) w'))"

text \<open>The state a call ends in.\<close>

fun final :: "world outcome \<Rightarrow> world" where
  "final (Returned w) = w"
| "final (Fatal m w) = w"

text \<open>
  An example store in which the index rebuild fails and the first \<open>k\<close> reads of
  \<^verbatim>\<open>schema.Load\<close> fail, and a state in which \<open>name\<close> is durably a plain string predicate
  while the update that adds an index to it is already published in memory.
\<close>

definition failingStorage :: "nat \<Rightarrow> storage" where
  "failingStorage k =
     \<lparr>BuildIndexes = (\<lambda>r. Some ''no space left''), marshalErr = (\<lambda>s. None),
      setEntryErr = (\<lambda>p ts. None), commitErr = (\<lambda>p ts. None),
      loadErr = (\<lambda>p i. if i < k then Some ''read failed'' else None),
      throttleErr = None\<rparr>"

definition demoUpdate :: SchemaUpdate where
  "demoUpdate = (stringSchema ''name'')\<lparr>su_Directive := INDEX, su_Tokenizer := [''term'']\<rparr>"

definition demoWorld :: world where
  "demoWorld =
     \<lparr>mem = stateOf [demoUpdate], disk = [''name'' \<mapsto> stringSchema ''name''],
      loads = 0, slept = 0\<rparr>"

definition demoRebuild :: IndexRebuild where
  "demoRebuild =
     \<lparr>ir_Attr = ''name'', ir_StartTs = 7, OldSchema = stringSchema ''name'',
      CurrentSchema = demoUpdate\<rparr>"

section \<open>Properties\<close>

lemmas demo_defs = state_Get_def stateOf_def mkEdge_def demoEnv_def logTxn_def
  isDeletePredicateEdge_def isStarAll_def IsScalar_def zeroSchemaUpdate_def
  demoConvert_def demoMarshal_def digits_def DataKey_def stringSchema_def

lemma convertAndStore_keeps:
  "convertAndStore env edge t1 t2 = Inr edge' \<Longrightarrow>
     Attr edge' = Attr edge \<and> Entity edge' = Entity edge \<and> Lang edge' = Lang edge \<and>
     Op edge' = Op edge"
  by (auto simp add: convertAndStore_def Let_def split: sum.splits go_any.splits if_splits)

lemma ValidateAndConvert_keeps:
  "ValidateAndConvert env edge su = Inr edge' \<Longrightarrow>
     Attr edge' = Attr edge \<and> Entity edge' = Entity edge \<and> Lang edge' = Lang edge \<and>
     Op edge' = Op edge"
  by (auto simp add: ValidateAndConvert_def Let_def dest: convertAndStore_keeps
        split: if_splits)

text \<open>
  Claim C4, as the code has it. The read strategy of \<^verbatim>\<open>runMutation\<close> is decided by the first
  case that holds: the scalar-only retrieval is used exactly for an edge without language tag
  on a non-list predicate, whatever the count index or the operation; the full posting list
  is read exactly for an edge with a language tag, and for an edge on a list predicate that
  has a count index or is a delete; the in-memory delta facade is used exactly for the
  remaining edges: list predicate, no language tag, no count index, not a delete. And every
  edge that passes validation is applied after exactly one read, made with the strategy of
  the edge as it was received, on the key of its attribute and entity: the logging
  transaction records that read and the edge as converted.
\<close>

theorem runMutation_read_strategy:
  "(getFn edge su = GetScalarList \<longleftrightarrow> Lang edge = [] \<and> \<not> su_List su) \<and>
   (getFn edge su = Get \<longleftrightarrow>
      Lang edge \<noteq> [] \<or> (su_List su \<and> (su_Count su \<or> Op edge = DEL))) \<and>
   (getFn edge su = GetFromDelta \<longleftrightarrow>
      su_List su \<and> Lang edge = [] \<and> \<not> su_Count su \<and> Op edge \<noteq> DEL) \<and>
   (state_Get True st (Attr edge) = (su, ok) \<and> (Op edge = DEL \<or> ok) \<and>
    \<not> isDeletePredicateEdge env edge \<and> ValidateAndConvert env edge su = Inr edge' \<longrightarrow>
      runMutation env logTxn st edge txn =
        (None, txn @ [Read (getFn edge su) (Attr edge, Entity edge),
                      Added (Attr edge, Entity edge) edge']))"
proof -
  have strategy:
    "(getFn edge su = GetScalarList \<longleftrightarrow> Lang edge = [] \<and> \<not> su_List su) \<and>
     (getFn edge su = Get \<longleftrightarrow>
        Lang edge \<noteq> [] \<or> (su_List su \<and> (su_Count su \<or> Op edge = DEL))) \<and>
     (getFn edge su = GetFromDelta \<longleftrightarrow>
        su_List su \<and> Lang edge = [] \<and> \<not> su_Count su \<and> Op edge \<noteq> DEL)"
    by (simp add: getFn_def)
  have applied: "runMutation env logTxn st edge txn =
        (None, txn @ [Read (getFn edge su) (Attr edge, Entity edge),
                      Added (Attr edge, Entity edge) edge'])"
    if g: "state_Get True st (Attr edge) = (su, ok)" and o: "Op edge = DEL \<or> ok"
      and d: "\<not> isDeletePredicateEdge env edge"
      and v: "ValidateAndConvert env edge su = Inr edge'"
  proof -
    from ValidateAndConvert_keeps [OF v] have k: "Attr edge' = Attr edge"
      "Entity edge' = Entity edge" "Lang edge' = Lang edge" "Op edge' = Op edge"
      by simp_all
    then have "getFn edge' su = getFn edge su" by (simp add: getFn_def)
    with g o d v k show ?thesis
      by (auto simp add: runMutation_def logTxn_def DataKey_def Let_def)
  qed
  from strategy applied show ?thesis by blast
qed

text \<open>
  The four kinds of edge at concrete inputs: a set and a delete on a list predicate, a
  language-tagged value, and a plain scalar value, which is read once and applied.
\<close>

theorem runMutation_read_strategy_witness:
  "getFn (mkEdge 1 ''friend'' ''x'' DefaultID [] SET) (zeroSchemaUpdate\<lparr>su_List := True\<rparr>) = GetFromDelta \<and>
   getFn (mkEdge 1 ''friend'' ''x'' DefaultID [] DEL) (zeroSchemaUpdate\<lparr>su_List := True\<rparr>) = Get \<and>
   getFn (mkEdge 1 ''name'' ''x'' DefaultID ''en'' SET) zeroSchemaUpdate = Get \<and>
   runMutation (demoEnv False) logTxn (stateOf [stringSchema ''name''])
       (mkEdge 1 ''name'' ''x'' DefaultID [] SET) [] =
     (None, [Read GetScalarList (''name'', 1),
             Added (''name'', 1) (mkEdge 1 ''name'' ''x'' StringID [] SET)])"
  using runMutation_read_strategy [of "mkEdge 1 ''friend'' ''x'' DefaultID [] SET"
            "zeroSchemaUpdate\<lparr>su_List := True\<rparr>"]
        runMutation_read_strategy [of "mkEdge 1 ''friend'' ''x'' DefaultID [] DEL"
            "zeroSchemaUpdate\<lparr>su_List := True\<rparr>"]
        runMutation_read_strategy [of "mkEdge 1 ''name'' ''x'' DefaultID ''en'' SET" zeroSchemaUpdate]
        runMutation_read_strategy [of "mkEdge 1 ''name'' ''x'' DefaultID [] SET"
            "stringSchema ''name''" "stateOf [stringSchema ''name'']" True "demoEnv False"
            "mkEdge 1 ''name'' ''x'' StringID [] SET" "[]"]
  by (simp add: ValidateAndConvert_def convertAndStore_def demo_defs)

text \<open>
  Claim C4 as stated fails: a delete on a non-list predicate with a count index and no
  language tag is a delete operation on a predicate with a count index, yet it is read with
  the scalar-only retrieval, not the full posting list, and then applied.
\<close>

theorem getFn_delete_count_scalar_counterexample:
  "Op (mkEdge 1 ''name'' ''Alice'' StringID [] DEL) = DEL \<and>
   su_Count ((stringSchema ''name'')\<lparr>su_Count := True\<rparr>) \<and>
   getFn (mkEdge 1 ''name'' ''Alice'' StringID [] DEL) ((stringSchema ''name'')\<lparr>su_Count := True\<rparr>)
     = GetScalarList \<and>
   fst (runMutation (demoEnv False) logTxn (stateOf [(stringSchema ''name'')\<lparr>su_Count := True\<rparr>])
          (mkEdge 1 ''name'' ''Alice'' StringID [] DEL) [])  = None \<and>
   snd (runMutation (demoEnv False) logTxn (stateOf [(stringSchema ''name'')\<lparr>su_Count := True\<rparr>])
          (mkEdge 1 ''name'' ''Alice'' StringID [] DEL) []) =
     [Read GetScalarList (''name'', 1),
      Added (''name'', 1) (mkEdge 1 ''name'' ''Alice'' StringID [] DEL)]"
  by (simp add: getFn_def runMutation_def ValidateAndConvert_def Let_def demo_defs)

lemma convertAndStore_not_schema_error:
  "convertAndStore env edge t1 t2 \<noteq> Inl (ErrSchemaNotFound a)"
  by (simp add: convertAndStore_def Let_def split: sum.splits go_any.splits)

lemma ValidateAndConvert_not_schema_error:
  "ValidateAndConvert env edge su \<noteq> Inl (ErrSchemaNotFound a)"
  by (simp add: ValidateAndConvert_def Let_def convertAndStore_not_schema_error)

text \<open>
  Claim C10. When no schema exists for the edge's attribute, a non-DELETE edge fails at once
  with the schema-not-found error and the transaction is untouched; a DELETE edge is
  processed exactly as if the attribute had the empty schema, and whatever the outcome, it is
  never the schema-not-found error.
\<close>

theorem runMutation_schema_absent:
  assumes "predicate st (Attr edge) = None" and "mutSchema st (Attr edge) = None"
  shows "(Op edge \<noteq> DEL \<longrightarrow>
            runMutation env ops st edge txn = (Some (ErrSchemaNotFound (Attr edge)), txn)) \<and>
         (Op edge = DEL \<longrightarrow>
            runMutation env ops st edge txn =
              runMutation env ops
                (st\<lparr>predicate := (predicate st)(Attr edge \<mapsto> zeroSchemaUpdate)\<rparr>) edge txn \<and>
            fst (runMutation env ops st edge txn) \<noteq> Some (ErrSchemaNotFound a))"
proof -
  have g: "state_Get True st (Attr edge) = (zeroSchemaUpdate, False)"
    using assms by (simp add: state_Get_def)
  have g': "state_Get True (st\<lparr>predicate := (predicate st)(Attr edge \<mapsto> zeroSchemaUpdate)\<rparr>)
              (Attr edge) = (zeroSchemaUpdate, True)"
    using assms by (simp add: state_Get_def)
  show ?thesis
    using ValidateAndConvert_not_schema_error [of env edge zeroSchemaUpdate a]
    by (auto simp add: runMutation_def g g' Let_def split: sum.splits prod.splits option.splits)
qed

text \<open>
  Without any schema, setting a value fails and deleting the same value is read and applied.
\<close>

theorem runMutation_schema_absent_witness:
  "runMutation (demoEnv False) logTxn (stateOf []) (mkEdge 1 ''name'' ''Alice'' DefaultID [] SET) []
     = (Some (ErrSchemaNotFound ''name''), []) \<and>
   runMutation (demoEnv False) logTxn (stateOf []) (mkEdge 1 ''name'' ''Alice'' DefaultID [] DEL) []
     = (None, [Read GetScalarList (''name'', 1),
               Added (''name'', 1) (mkEdge 1 ''name'' ''Alice'' DefaultID [] DEL)])"
  using runMutation_schema_absent [of "stateOf []" "mkEdge 1 ''name'' ''Alice'' DefaultID [] SET"
          "demoEnv False" logTxn "[]" "''name''"]
        runMutation_schema_absent [of "stateOf []" "mkEdge 1 ''name'' ''Alice'' DefaultID [] DEL"
          "demoEnv False" logTxn "[]" "''name''"]
  by (simp add: getFn_def runMutation_def ValidateAndConvert_def convertAndStore_def Let_def demo_defs)


lemma ValidateAndConvert_converts:
  "convertsTo env edge su T \<Longrightarrow>
     ValidateAndConvert env edge su = convertAndStore env edge (posting_TypeID env edge) T"
  by (auto simp add: convertsTo_def ValidateAndConvert_def Let_def split: if_splits)

text \<open>
  Claim C9, as the code has it. With access control enabled, an edge on the permission
  predicate whose value is converted (to type \<open>T\<close>, giving \<open>dst\<close>, marshalled to bytes \<open>b\<close>)
  is accepted, with type \<open>T\<close> and bytes \<open>b\<close>, when the converted value is an integer in
  \<open>[0,7]\<close>; it fails with the range error, which carries the value, when the integer is below
  0 or above 7; and it fails with another error, not-an-integer, when the converted value is
  not an integer. A failed conversion is a third error (\<open>ErrConvert\<close>).
\<close>

theorem permission_range:
  assumes "AclEnabled env"
    and "ParseAttr env (Attr edge) = ''dgraph.rule.permission''"
    and "convertsTo env edge su T"
    and "Convert env \<lparr>Tid = ValueType edge, Val_Value = ABytes (Value edge)\<rparr> T = Inr dst"
    and "Marshal env dst = Inr (ABytes b)"
  shows "(Val_Value dst = AInt64 n \<longrightarrow>
            ValidateAndConvert env edge su =
              (if 0 \<le> n \<and> n \<le> 7 then Inr (edge\<lparr>ValueType := T, Value := b\<rparr>)
               else Inl (ErrPermissionRange n))) \<and>
         ((\<forall>k. Val_Value dst \<noteq> AInt64 k) \<longrightarrow>
            ValidateAndConvert env edge su = Inl ErrPermissionNotInt)"
  using assms
  by (auto simp add: ValidateAndConvert_converts convertAndStore_def Let_def split: go_any.splits)

lemmas eval_defs = ValidateAndConvert_def convertAndStore_def getFn_def
  runMutation_def Let_def demo_defs

text \<open>
  The scenario of the spec: the value 9 is rejected with the range error, the value 7 is
  accepted and stored as an integer.
\<close>

theorem permission_range_witness:
  "ValidateAndConvert (demoEnv True) (mkEdge 1 ''dgraph.rule.permission'' ''9'' DefaultID [] SET)
       (zeroSchemaUpdate\<lparr>su_ValueType := IntID\<rparr>) = Inl (ErrPermissionRange 9) \<and>
   ValidateAndConvert (demoEnv True) (mkEdge 1 ''dgraph.rule.permission'' ''7'' DefaultID [] SET)
       (zeroSchemaUpdate\<lparr>su_ValueType := IntID\<rparr>) =
     Inr (mkEdge 1 ''dgraph.rule.permission'' ''7'' IntID [] SET)"
  using permission_range [of "demoEnv True" "mkEdge 1 ''dgraph.rule.permission'' ''9'' DefaultID [] SET"
          "zeroSchemaUpdate\<lparr>su_ValueType := IntID\<rparr>" IntID
          "\<lparr>Tid = IntID, Val_Value = AInt64 9\<rparr>" "''9''" 9]
        permission_range [of "demoEnv True" "mkEdge 1 ''dgraph.rule.permission'' ''7'' DefaultID [] SET"
          "zeroSchemaUpdate\<lparr>su_ValueType := IntID\<rparr>" IntID
          "\<lparr>Tid = IntID, Val_Value = AInt64 7\<rparr>" "''7''" 7]
  by (simp add: convertsTo_def Let_def demo_defs)

text \<open>
  Claim C9 as stated fails: the range check is guarded by \<^verbatim>\<open>x.WorkerConfig.AclEnabled\<close>. With
  access control disabled, an edge on the permission predicate whose converted value is 9 is
  accepted.
\<close>

theorem permission_range_acl_disabled_counterexample:
  "ParseAttr (demoEnv False) (Attr (mkEdge 1 ''dgraph.rule.permission'' ''9'' DefaultID [] SET))
     = ''dgraph.rule.permission'' \<and>
   Convert (demoEnv False) \<lparr>Tid = DefaultID, Val_Value = ABytes ''9''\<rparr> IntID
     = Inr \<lparr>Tid = IntID, Val_Value = AInt64 9\<rparr> \<and>
   ValidateAndConvert (demoEnv False) (mkEdge 1 ''dgraph.rule.permission'' ''9'' DefaultID [] SET)
       (zeroSchemaUpdate\<lparr>su_ValueType := IntID\<rparr>) =
     Inr (mkEdge 1 ''dgraph.rule.permission'' ''9'' IntID [] SET)"
  by (simp add: eval_defs)

text \<open>
  Claim C8, as the code has it. An edge with a language tag that is not one of the two
  star-valued edges that bypass validation (the delete-predicate edge, and the default-typed
  edge whose value is the star) fails validation against a schema without language support,
  with an error that names the predicate; and \<^verbatim>\<open>runMutation\<close> returns an error (this one, or
  schema-not-found for a non-DELETE edge without schema) and leaves the transaction as it
  was: nothing is read and nothing is applied.
\<close>

theorem lang_edge_rejected:
  assumes "Lang edge \<noteq> []" and "\<not> su_Lang su"
    and "\<not> isDeletePredicateEdge env edge"
    and "\<not> (ValueType edge = DefaultID \<and> isStarAll env (Value edge))"
  shows "ValidateAndConvert env edge su = Inl (ErrLangDirective (ParseAttr env (Attr edge)) edge) \<and>
         (state_Get True st (Attr edge) = (su, ok) \<longrightarrow>
            runMutation env ops st edge txn =
              (Some (if Op edge \<noteq> DEL \<and> \<not> ok then ErrSchemaNotFound (Attr edge)
                     else ErrLangDirective (ParseAttr env (Attr edge)) edge), txn))"
  using assms by (auto simp add: ValidateAndConvert_def runMutation_def)

text \<open>
  A language-tagged name on a string predicate without \<^verbatim>\<open>@lang\<close>: validation fails naming the
  predicate, and the logging transaction stays empty.
\<close>

theorem lang_edge_rejected_witness:
  "ValidateAndConvert (demoEnv False) (mkEdge 1 ''name'' ''Alice'' DefaultID ''en'' SET)
       (stringSchema ''name'') =
     Inl (ErrLangDirective ''name'' (mkEdge 1 ''name'' ''Alice'' DefaultID ''en'' SET)) \<and>
   runMutation (demoEnv False) logTxn (stateOf [stringSchema ''name''])
       (mkEdge 1 ''name'' ''Alice'' DefaultID ''en'' SET) [] =
     (Some (ErrLangDirective ''name'' (mkEdge 1 ''name'' ''Alice'' DefaultID ''en'' SET)), [])"
  using lang_edge_rejected [of "mkEdge 1 ''name'' ''Alice'' DefaultID ''en'' SET"
          "stringSchema ''name''" "demoEnv False" "stateOf [stringSchema ''name'']" True logTxn "[]"]
  by (simp add: demo_defs)

text \<open>
  Claim C8 as stated fails: the delete of all values of a language-tagged predicate carries a
  language tag, its value is the star and its type is default, so validation returns before
  the language rule; the schema has no language support, yet the edge is validated, read and
  applied.
\<close>

theorem lang_star_edge_accepted_counterexample:
  "Lang (mkEdge 1 ''name'' ''_STAR_ALL'' DefaultID ''en'' DEL) \<noteq> [] \<and>
   su_Lang (stringSchema ''name'') = False \<and>
   ValidateAndConvert (demoEnv False) (mkEdge 1 ''name'' ''_STAR_ALL'' DefaultID ''en'' DEL)
       (stringSchema ''name'') = Inr (mkEdge 1 ''name'' ''_STAR_ALL'' DefaultID ''en'' DEL) \<and>
   runMutation (demoEnv False) logTxn (stateOf [stringSchema ''name''])
       (mkEdge 1 ''name'' ''_STAR_ALL'' DefaultID ''en'' DEL) [] =
     (None, [Read Get (''name'', 1),
             Added (''name'', 1) (mkEdge 1 ''name'' ''_STAR_ALL'' DefaultID ''en'' DEL)])"
  by (simp add: eval_defs)

lemma entry_update:
  "entry (AList.update k v mm) g = (if g = k then v else entry mm g)"
  by (simp add: entry_def update_conv')

lemma entry_Some: "map_of mm g = Some mu \<Longrightarrow> entry mm g = mu"
  by (simp add: entry_def)

lemma entry_new: "g \<notin> fst ` set mm \<Longrightarrow> entry mm g = newMutations g"
  by (cases "map_of mm g") (auto simp add: entry_def dest: map_of_SomeD intro: rev_image_eqI)

lemma in_keys_Some: "g \<in> fst ` set mm \<Longrightarrow> \<exists>mu. map_of mm g = Some mu"
  by (cases "map_of mm g") (simp_all add: map_of_eq_None_iff)

lemma addEdges_entry:
  "addEdges grp src es mm = Inr mm' \<Longrightarrow>
     Edges (entry mm' g) = Edges (entry mm g) @ filter (\<lambda>e. BelongsTo grp (Attr e) = Inr g) es \<and>
     Schema (entry mm' g) = Schema (entry mm g) \<and>
     GroupId (entry mm' g) = GroupId (entry mm g)"
proof (induction es arbitrary: mm)
  case Nil
  then show ?case by simp
next
  case (Cons e es)
  then obtain gid where own: "BelongsTo grp (Attr e) = Inr gid"
    by (auto split: sum.splits)
  let ?mu = "entry mm gid"
  let ?mm1 = "AList.update gid (?mu\<lparr>Edges := Edges ?mu @ [e], Metadata := Metadata src\<rparr>) mm"
  from Cons.prems own have "addEdges grp src es ?mm1 = Inr mm'"
    by (simp add: Let_def)
  from Cons.IH [OF this] show ?case
    using own by (auto simp add: entry_update)
qed

lemma addEdges_keys:
  "addEdges grp src es mm = Inr mm' \<Longrightarrow>
     fst ` set mm' = fst ` set mm \<union> {g. \<exists>e\<in>set es. BelongsTo grp (Attr e) = Inr g} \<and>
     (distinct (map fst mm) \<longrightarrow> distinct (map fst mm')) \<and>
     (\<forall>e\<in>set es. \<exists>g. BelongsTo grp (Attr e) = Inr g)"
proof (induction es arbitrary: mm)
  case Nil
  then show ?case by simp
next
  case (Cons e es)
  then obtain gid where own: "BelongsTo grp (Attr e) = Inr gid"
    by (auto split: sum.splits)
  let ?mu = "entry mm gid"
  let ?mm1 = "AList.update gid (?mu\<lparr>Edges := Edges ?mu @ [e], Metadata := Metadata src\<rparr>) mm"
  from Cons.prems own have "addEdges grp src es ?mm1 = Inr mm'"
    by (simp add: Let_def)
  from Cons.IH [OF this] show ?case
    using own by (auto simp add: dom_update distinct_update)
qed

lemma addSchema_entry:
  "addSchema grp ss mm = Inr mm' \<Longrightarrow>
     Schema (entry mm' g) = Schema (entry mm g) @ filter (\<lambda>s. BelongsTo grp (su_Predicate s) = Inr g) ss \<and>
     Edges (entry mm' g) = Edges (entry mm g) \<and>
     GroupId (entry mm' g) = GroupId (entry mm g)"
proof (induction ss arbitrary: mm)
  case Nil
  then show ?case by simp
next
  case (Cons s ss)
  then obtain gid where own: "BelongsTo grp (su_Predicate s) = Inr gid"
    by (auto split: sum.splits)
  let ?mu = "entry mm gid"
  let ?mm1 = "AList.update gid (?mu\<lparr>Schema := Schema ?mu @ [s]\<rparr>) mm"
  from Cons.prems own have "addSchema grp ss ?mm1 = Inr mm'"
    by (simp add: Let_def)
  from Cons.IH [OF this] show ?case
    using own by (auto simp add: entry_update)
qed

lemma addSchema_keys:
  "addSchema grp ss mm = Inr mm' \<Longrightarrow>
     fst ` set mm' = fst ` set mm \<union> {g. \<exists>s\<in>set ss. BelongsTo grp (su_Predicate s) = Inr g} \<and>
     (distinct (map fst mm) \<longrightarrow> distinct (map fst mm')) \<and>
     (\<forall>s\<in>set ss. \<exists>g. BelongsTo grp (su_Predicate s) = Inr g)"
proof (induction ss arbitrary: mm)
  case Nil
  then show ?case by simp
next
  case (Cons s ss)
  then obtain gid where own: "BelongsTo grp (su_Predicate s) = Inr gid"
    by (auto split: sum.splits)
  let ?mu = "entry mm gid"
  let ?mm1 = "AList.update gid (?mu\<lparr>Schema := Schema ?mu @ [s]\<rparr>) mm"
  from Cons.prems own have "addSchema grp ss ?mm1 = Inr mm'"
    by (simp add: Let_def)
  from Cons.IH [OF this] show ?case
    using own by (auto simp add: dom_update distinct_update)
qed

lemma addDrop_entry:
  "Edges (entry (addDrop src gs mm) g) = Edges (entry mm g) \<and>
   Schema (entry (addDrop src gs mm) g) = Schema (entry mm g) \<and>
   GroupId (entry (addDrop src gs mm) g) = GroupId (entry mm g) \<and>
   DropOp (entry (addDrop src gs mm) g) = (if g \<in> set gs then DropOp src else DropOp (entry mm g)) \<and>
   DropValue (entry (addDrop src gs mm) g) =
     (if g \<in> set gs then DropValue src else DropValue (entry mm g))"
  by (induction gs arbitrary: mm) (auto simp add: Let_def entry_update)

lemma addDrop_keys:
  "fst ` set (addDrop src gs mm) = fst ` set mm \<union> set gs \<and>
   (distinct (map fst mm) \<longrightarrow> distinct (map fst (addDrop src gs mm)))"
  by (induction gs arbitrary: mm) (auto simp add: Let_def dom_update distinct_update)

lemma addTypes_entry:
  "Edges (entry (addTypes src gs mm) g) = Edges (entry mm g) \<and>
   Schema (entry (addTypes src gs mm) g) = Schema (entry mm g) \<and>
   GroupId (entry (addTypes src gs mm) g) = GroupId (entry mm g) \<and>
   DropOp (entry (addTypes src gs mm) g) = DropOp (entry mm g) \<and>
   DropValue (entry (addTypes src gs mm) g) = DropValue (entry mm g) \<and>
   Types (entry (addTypes src gs mm) g) = (if g \<in> set gs then Types src else Types (entry mm g))"
  by (induction gs arbitrary: mm) (auto simp add: Let_def entry_update)

lemma addTypes_keys:
  "fst ` set (addTypes src gs mm) = fst ` set mm \<union> set gs \<and>
   (distinct (map fst mm) \<longrightarrow> distinct (map fst (addTypes src gs mm)))"
  by (induction gs arbitrary: mm) (auto simp add: Let_def dom_update distinct_update)


lemma populateMutationMap_placed:
  assumes "populateMutationMap grp src = Inr mm"
  shows "distinct (map fst mm) \<and>
         (\<forall>gid mu. map_of mm gid = Some mu \<longrightarrow>
            GroupId mu = gid \<and>
            Edges mu = filter (\<lambda>e. BelongsTo grp (Attr e) = Inr gid) (Edges src) \<and>
            Schema mu = filter (\<lambda>s. BelongsTo grp (su_Predicate s) = Inr gid) (Schema src)) \<and>
         (\<forall>e\<in>set (Edges src). \<exists>gid mu.
            BelongsTo grp (Attr e) = Inr gid \<and> map_of mm gid = Some mu \<and> e \<in> set (Edges mu)) \<and>
         (\<forall>s\<in>set (Schema src). \<exists>gid mu.
            BelongsTo grp (su_Predicate s) = Inr gid \<and> map_of mm gid = Some mu \<and>
            s \<in> set (Schema mu)) \<and>
         (DropOp src > 0 \<longrightarrow>
            (\<forall>gid\<in>set (KnownGroups grp). \<exists>mu.
               map_of mm gid = Some mu \<and> DropOp mu = DropOp src \<and> DropValue mu = DropValue src)) \<and>
         (Types src \<noteq> [] \<longrightarrow>
            (\<forall>gid\<in>set (KnownGroups grp). \<exists>mu. map_of mm gid = Some mu \<and> Types mu = Types src))"
proof -
  from assms obtain mm1 mm2 where
    e1: "addEdges grp src (Edges src) [] = Inr mm1" and
    e2: "addSchema grp (Schema src) mm1 = Inr mm2"
    by (auto simp add: populateMutationMap_def split: sum.splits)
  define mm3 where "mm3 = (if DropOp src > 0 then addDrop src (KnownGroups grp) mm2 else mm2)"
  have mm: "mm = (if length (Types src) > 0 then addTypes src (KnownGroups grp) mm3 else mm3)"
    using assms e1 e2 by (auto simp add: populateMutationMap_def mm3_def Let_def)
  note E1 = addEdges_entry [OF e1] and K1 = addEdges_keys [OF e1]
  note E2 = addSchema_entry [OF e2] and K2 = addSchema_keys [OF e2]
  have new: "\<And>g. Edges (entry [] g) = [] \<and> Schema (entry [] g) = [] \<and> GroupId (entry [] g) = g"
    by (simp add: entry_def newMutations_def)
  have ent: "\<And>g. GroupId (entry mm g) = g \<and>
       Edges (entry mm g) = filter (\<lambda>e. BelongsTo grp (Attr e) = Inr g) (Edges src) \<and>
       Schema (entry mm g) = filter (\<lambda>s. BelongsTo grp (su_Predicate s) = Inr g) (Schema src)"
    by (simp add: mm mm3_def addTypes_entry addDrop_entry E2 E1 new)
  have dist: "distinct (map fst mm)"
    using K1 K2 by (simp add: mm mm3_def addTypes_keys addDrop_keys)
  have keys3: "fst ` set mm2 \<subseteq> fst ` set mm3" and keys4: "fst ` set mm3 \<subseteq> fst ` set mm"
    by (auto simp add: mm mm3_def addTypes_keys addDrop_keys)
  have p2: "\<forall>gid mu. map_of mm gid = Some mu \<longrightarrow>
            GroupId mu = gid \<and>
            Edges mu = filter (\<lambda>e. BelongsTo grp (Attr e) = Inr gid) (Edges src) \<and>
            Schema mu = filter (\<lambda>s. BelongsTo grp (su_Predicate s) = Inr gid) (Schema src)"
    using ent by (auto dest: entry_Some)
  have p3: "\<forall>e\<in>set (Edges src). \<exists>gid mu.
            BelongsTo grp (Attr e) = Inr gid \<and> map_of mm gid = Some mu \<and> e \<in> set (Edges mu)"
  proof
    fix e assume e: "e \<in> set (Edges src)"
    with K1 obtain g where g: "BelongsTo grp (Attr e) = Inr g" by blast
    with e K1 have "g \<in> fst ` set mm1" by blast
    with K2 keys3 keys4 have "g \<in> fst ` set mm" by blast
    then obtain mu where mu: "map_of mm g = Some mu" using in_keys_Some [of g mm] by blast
    with p2 e g have "e \<in> set (Edges mu)" by simp
    with g mu show "\<exists>gid mu. BelongsTo grp (Attr e) = Inr gid \<and> map_of mm gid = Some mu \<and>
                     e \<in> set (Edges mu)" by blast
  qed
  have p4: "\<forall>s\<in>set (Schema src). \<exists>gid mu.
            BelongsTo grp (su_Predicate s) = Inr gid \<and> map_of mm gid = Some mu \<and>
            s \<in> set (Schema mu)"
  proof
    fix s assume s: "s \<in> set (Schema src)"
    with K2 obtain g where g: "BelongsTo grp (su_Predicate s) = Inr g" by blast
    with s K2 have "g \<in> fst ` set mm2" by blast
    with keys3 keys4 have "g \<in> fst ` set mm" by blast
    then obtain mu where mu: "map_of mm g = Some mu" using in_keys_Some [of g mm] by blast
    with p2 s g have "s \<in> set (Schema mu)" by simp
    with g mu show "\<exists>gid mu. BelongsTo grp (su_Predicate s) = Inr gid \<and>
                     map_of mm gid = Some mu \<and> s \<in> set (Schema mu)" by blast
  qed
  have p5: "DropOp src > 0 \<longrightarrow>
            (\<forall>gid\<in>set (KnownGroups grp). \<exists>mu.
               map_of mm gid = Some mu \<and> DropOp mu = DropOp src \<and> DropValue mu = DropValue src)"
  proof (intro impI ballI)
    fix gid assume d: "DropOp src > 0" and k: "gid \<in> set (KnownGroups grp)"
    then have "gid \<in> fst ` set mm3" by (simp add: mm3_def addDrop_keys)
    with keys4 have "gid \<in> fst ` set mm" by blast
    then obtain mu where mu: "map_of mm gid = Some mu" using in_keys_Some [of gid mm] by blast
    have "DropOp (entry mm gid) = DropOp src \<and> DropValue (entry mm gid) = DropValue src"
      using d k by (simp add: mm mm3_def addTypes_entry addDrop_entry)
    with mu show "\<exists>mu. map_of mm gid = Some mu \<and> DropOp mu = DropOp src \<and>
                    DropValue mu = DropValue src"
      by (simp add: entry_Some)
  qed
  have p6: "Types src \<noteq> [] \<longrightarrow>
            (\<forall>gid\<in>set (KnownGroups grp). \<exists>mu. map_of mm gid = Some mu \<and> Types mu = Types src)"
  proof (intro impI ballI)
    fix gid assume t: "Types src \<noteq> []" and k: "gid \<in> set (KnownGroups grp)"
    then have "gid \<in> fst ` set mm" by (simp add: mm addTypes_keys)
    then obtain mu where mu: "map_of mm gid = Some mu" using in_keys_Some [of gid mm] by blast
    have "Types (entry mm gid) = Types src"
      using t k by (simp add: mm addTypes_entry)
    with mu show "\<exists>mu. map_of mm gid = Some mu \<and> Types mu = Types src"
      by (simp add: entry_Some)
  qed
  from dist p2 p3 p4 p5 p6 show ?thesis by blast
qed

lemma dispatch_complete:
  "0 \<notin> fst ` set l \<Longrightarrow>
     dispatch ts l = (map (\<lambda>(gid, mu). (gid, mu\<lparr>StartTs := ts\<rparr>)) l, True)"
  by (induction l) auto

lemma dispatch_stops:
  "0 \<in> fst ` set l \<Longrightarrow> snd (dispatch ts l) = False"
proof (induction l)
  case Nil
  then show ?case by simp
next
  case (Cons p l)
  obtain gid mu where p: "p = (gid, mu)" by (cases p)
  show ?case
  proof (cases "gid = 0")
    case True
    with p show ?thesis by simp
  next
    case False
    with Cons.prems p have "0 \<in> fst ` set l" by auto
    then have "snd (dispatch ts l) = False" by (rule Cons.IH)
    with False p show ?thesis by (cases "dispatch ts l") simp_all
  qed
qed

lemma collect_error:
  "snd (collect tctx e rs) =
     (case filter (\<lambda>r. err r \<noteq> None) rs of [] \<Rightarrow> e | f # fs \<Rightarrow> err (last (f # fs)))"
proof (induction rs arbitrary: tctx e)
  case Nil
  show ?case by simp
next
  case (Cons r rs)
  show ?case
    by (cases "err r"; cases "filter (\<lambda>r. err r \<noteq> None) rs") (simp_all add: Cons.IH)
qed

lemma collect_keys:
  "set (Keys (fst (collect tctx e rs))) =
     set (Keys tctx) \<union> (\<Union>r\<in>set rs. case ctx r of None \<Rightarrow> {} | Some c \<Rightarrow> set (Keys c))"
  by (induction rs arbitrary: tctx e) (auto split: option.splits)

lemma collect_preds:
  "set (Preds (fst (collect tctx e rs))) =
     set (Preds tctx) \<union> (\<Union>r\<in>set rs. case ctx r of None \<Rightarrow> {} | Some c \<Rightarrow> set (Preds c))"
  by (induction rs arbitrary: tctx e) (auto split: option.splits)

lemma collect_StartTs:
  "tc_StartTs (fst (collect tctx e rs)) = tc_StartTs tctx"
  by (induction rs arbitrary: tctx e) (auto split: option.splits)

lemma addEdges_total:
  "\<forall>e\<in>set es. \<exists>g. BelongsTo grp (Attr e) = Inr g \<Longrightarrow> \<exists>mm'. addEdges grp src es mm = Inr mm'"
  by (induction es arbitrary: mm) (auto simp add: Let_def)

lemma addSchema_total:
  "\<forall>s\<in>set ss. \<exists>g. BelongsTo grp (su_Predicate s) = Inr g \<Longrightarrow> \<exists>mm'. addSchema grp ss mm = Inr mm'"
  by (induction ss arbitrary: mm) (auto simp add: Let_def)

lemma populateMutationMap_total:
  assumes "\<forall>e\<in>set (Edges m). \<exists>g. BelongsTo grp (Attr e) = Inr g"
    and "\<forall>s\<in>set (Schema m). \<exists>g. BelongsTo grp (su_Predicate s) = Inr g"
  shows "\<exists>mm. populateMutationMap grp m = Inr mm"
proof -
  from addEdges_total [OF assms(1)] obtain mm1 where
    "addEdges grp m (Edges m) [] = Inr mm1" by blast
  moreover from addSchema_total [OF assms(2)] obtain mm2 where
    "addSchema grp (Schema m) mm1 = Inr mm2" by blast
  ultimately show ?thesis by (simp add: populateMutationMap_def Let_def)
qed

lemma populateMutationMap_stages:
  assumes "populateMutationMap grp src = Inr mm"
  obtains mm1 mm2 where
    "addEdges grp src (Edges src) [] = Inr mm1"
    "addSchema grp (Schema src) mm1 = Inr mm2"
    "mm = (let mm3 = (if DropOp src > 0 then addDrop src (KnownGroups grp) mm2 else mm2)
           in if Types src \<noteq> [] then addTypes src (KnownGroups grp) mm3 else mm3)"
proof -
  from assms obtain mm1 where e1: "addEdges grp src (Edges src) [] = Inr mm1"
    by (cases "addEdges grp src (Edges src) []") (simp_all add: populateMutationMap_def)
  with assms obtain mm2 where e2: "addSchema grp (Schema src) mm1 = Inr mm2"
    by (cases "addSchema grp (Schema src) mm1") (simp_all add: populateMutationMap_def)
  from assms e1 e2 have
    "mm = (let mm3 = (if DropOp src > 0 then addDrop src (KnownGroups grp) mm2 else mm2)
           in if Types src \<noteq> [] then addTypes src (KnownGroups grp) mm3 else mm3)"
    by (simp add: populateMutationMap_def Let_def)
  with e1 e2 show thesis by (rule that)
qed

lemma populateMutationMap_keys:
  assumes "populateMutationMap grp src = Inr mm"
  shows "{g. \<exists>e\<in>set (Edges src). BelongsTo grp (Attr e) = Inr g} \<subseteq> fst ` set mm"
    and "{g. \<exists>s\<in>set (Schema src). BelongsTo grp (su_Predicate s) = Inr g} \<subseteq> fst ` set mm"
proof -
  from assms obtain mm1 mm2 where
    e1: "addEdges grp src (Edges src) [] = Inr mm1" and
    e2: "addSchema grp (Schema src) mm1 = Inr mm2" and
    mm: "mm = (let mm3 = (if DropOp src > 0 then addDrop src (KnownGroups grp) mm2 else mm2)
               in if Types src \<noteq> [] then addTypes src (KnownGroups grp) mm3 else mm3)"
    by (rule populateMutationMap_stages)
  have d: "fst ` set mm2 \<subseteq> fst ` set (addDrop src (KnownGroups grp) mm2)"
    by (simp add: addDrop_keys)
  have t: "\<And>l. fst ` set l \<subseteq> fst ` set (addTypes src (KnownGroups grp) l)"
    by (simp add: addTypes_keys)
  have sub: "fst ` set mm2 \<subseteq> fst ` set mm"
  proof (cases "DropOp src > 0")
    case True
    show ?thesis
    proof (cases "Types src \<noteq> []")
      case True
      with \<open>DropOp src > 0\<close> have "mm = addTypes src (KnownGroups grp) (addDrop src (KnownGroups grp) mm2)"
        by (simp add: mm)
      with d t [of "addDrop src (KnownGroups grp) mm2"] show ?thesis by simp
    next
      case False
      with \<open>DropOp src > 0\<close> have "mm = addDrop src (KnownGroups grp) mm2" by (simp add: mm)
      with d show ?thesis by simp
    qed
  next
    case False
    show ?thesis
    proof (cases "Types src \<noteq> []")
      case True
      with \<open>\<not> DropOp src > 0\<close> have "mm = addTypes src (KnownGroups grp) mm2" by (simp add: mm)
      with t [of mm2] show ?thesis by simp
    next
      case False
      with \<open>\<not> DropOp src > 0\<close> have "mm = mm2" by (simp add: mm)
      then show ?thesis by simp
    qed
  qed
  have k1: "fst ` set mm1 = {g. \<exists>e\<in>set (Edges src). BelongsTo grp (Attr e) = Inr g}"
    using addEdges_keys [OF e1] by simp
  have k2: "fst ` set mm2 =
              fst ` set mm1 \<union> {g. \<exists>s\<in>set (Schema src). BelongsTo grp (su_Predicate s) = Inr g}"
    using addSchema_keys [OF e2] by simp
  have "{g. \<exists>e\<in>set (Edges src). BelongsTo grp (Attr e) = Inr g} \<subseteq> fst ` set mm2"
    unfolding k2 k1 by simp
  then show "{g. \<exists>e\<in>set (Edges src). BelongsTo grp (Attr e) = Inr g} \<subseteq> fst ` set mm"
    using sub by (rule subset_trans)
  have "{g. \<exists>s\<in>set (Schema src). BelongsTo grp (su_Predicate s) = Inr g} \<subseteq> fst ` set mm2"
    unfolding k2 by simp
  then show "{g. \<exists>s\<in>set (Schema src). BelongsTo grp (su_Predicate s) = Inr g} \<subseteq> fst ` set mm"
    using sub by (rule subset_trans)
qed

text \<open>
  Claim C7. \<^verbatim>\<open>populateMutationMap\<close> returns a map whenever the owner of every predicate of
  the batch can be looked up. The map it returns has one partition per group id. The
  partition of a group holds exactly the edges and exactly the schema updates of the batch
  whose predicate that group owns, in the batch's order; so every edge and every schema
  update is in the partition of its owner and in no other. When the batch drops
  (\<^verbatim>\<open>DropOp > 0\<close>), every known group has a partition carrying the drop operation and its
  value; when the batch has type updates, every known group has a partition carrying all
  of them.
\<close>

theorem populateMutationMap_partition:
  "((\<forall>e\<in>set (Edges src). \<exists>g. BelongsTo grp (Attr e) = Inr g) \<and>
    (\<forall>s\<in>set (Schema src). \<exists>g. BelongsTo grp (su_Predicate s) = Inr g) \<longrightarrow>
      (\<exists>mm. populateMutationMap grp src = Inr mm)) \<and>
   (\<forall>mm. populateMutationMap grp src = Inr mm \<longrightarrow>
      distinct (map fst mm) \<and>
      (\<forall>gid mu. map_of mm gid = Some mu \<longrightarrow>
         GroupId mu = gid \<and>
         Edges mu = filter (\<lambda>e. BelongsTo grp (Attr e) = Inr gid) (Edges src) \<and>
         Schema mu = filter (\<lambda>s. BelongsTo grp (su_Predicate s) = Inr gid) (Schema src)) \<and>
      (\<forall>e\<in>set (Edges src). \<exists>gid mu.
         BelongsTo grp (Attr e) = Inr gid \<and> map_of mm gid = Some mu \<and> e \<in> set (Edges mu)) \<and>
      (\<forall>s\<in>set (Schema src). \<exists>gid mu.
         BelongsTo grp (su_Predicate s) = Inr gid \<and> map_of mm gid = Some mu \<and>
         s \<in> set (Schema mu)) \<and>
      (DropOp src > 0 \<longrightarrow>
         (\<forall>gid\<in>set (KnownGroups grp). \<exists>mu.
            map_of mm gid = Some mu \<and> DropOp mu = DropOp src \<and> DropValue mu = DropValue src)) \<and>
      (Types src \<noteq> [] \<longrightarrow>
         (\<forall>gid\<in>set (KnownGroups grp). \<exists>mu. map_of mm gid = Some mu \<and> Types mu = Types src)))"
proof (rule conjI)
  show "(\<forall>e\<in>set (Edges src). \<exists>g. BelongsTo grp (Attr e) = Inr g) \<and>
        (\<forall>s\<in>set (Schema src). \<exists>g. BelongsTo grp (su_Predicate s) = Inr g) \<longrightarrow>
          (\<exists>mm. populateMutationMap grp src = Inr mm)"
    using populateMutationMap_total [of src grp] by blast
next
  show "\<forall>mm. populateMutationMap grp src = Inr mm \<longrightarrow>
      distinct (map fst mm) \<and>
      (\<forall>gid mu. map_of mm gid = Some mu \<longrightarrow>
         GroupId mu = gid \<and>
         Edges mu = filter (\<lambda>e. BelongsTo grp (Attr e) = Inr gid) (Edges src) \<and>
         Schema mu = filter (\<lambda>s. BelongsTo grp (su_Predicate s) = Inr gid) (Schema src)) \<and>
      (\<forall>e\<in>set (Edges src). \<exists>gid mu.
         BelongsTo grp (Attr e) = Inr gid \<and> map_of mm gid = Some mu \<and> e \<in> set (Edges mu)) \<and>
      (\<forall>s\<in>set (Schema src). \<exists>gid mu.
         BelongsTo grp (su_Predicate s) = Inr gid \<and> map_of mm gid = Some mu \<and>
         s \<in> set (Schema mu)) \<and>
      (DropOp src > 0 \<longrightarrow>
         (\<forall>gid\<in>set (KnownGroups grp). \<exists>mu.
            map_of mm gid = Some mu \<and> DropOp mu = DropOp src \<and> DropValue mu = DropValue src)) \<and>
      (Types src \<noteq> [] \<longrightarrow>
         (\<forall>gid\<in>set (KnownGroups grp). \<exists>mu. map_of mm gid = Some mu \<and> Types mu = Types src))"
  proof (rule allI, rule impI)
    fix mm
    assume "populateMutationMap grp src = Inr mm"
    then show "distinct (map fst mm) \<and>
      (\<forall>gid mu. map_of mm gid = Some mu \<longrightarrow>
         GroupId mu = gid \<and>
         Edges mu = filter (\<lambda>e. BelongsTo grp (Attr e) = Inr gid) (Edges src) \<and>
         Schema mu = filter (\<lambda>s. BelongsTo grp (su_Predicate s) = Inr gid) (Schema src)) \<and>
      (\<forall>e\<in>set (Edges src). \<exists>gid mu.
         BelongsTo grp (Attr e) = Inr gid \<and> map_of mm gid = Some mu \<and> e \<in> set (Edges mu)) \<and>
      (\<forall>s\<in>set (Schema src). \<exists>gid mu.
         BelongsTo grp (su_Predicate s) = Inr gid \<and> map_of mm gid = Some mu \<and>
         s \<in> set (Schema mu)) \<and>
      (DropOp src > 0 \<longrightarrow>
         (\<forall>gid\<in>set (KnownGroups grp). \<exists>mu.
            map_of mm gid = Some mu \<and> DropOp mu = DropOp src \<and> DropValue mu = DropValue src)) \<and>
      (Types src \<noteq> [] \<longrightarrow>
         (\<forall>gid\<in>set (KnownGroups grp). \<exists>mu. map_of mm gid = Some mu \<and> Types mu = Types src))"
      by (rule populateMutationMap_placed)
  qed
qed

text \<open>
  A batch with two edges on \<open>name\<close>, one on \<open>friend\<close>, a drop and a type: groups 1 and 2 get
  their edges, and group 3, which owns none of them, gets the drop and the type as well.
\<close>

theorem populateMutationMap_partition_witness:
  "populateMutationMap demoCluster
     ((batch 5 [mkEdge 1 ''name'' ''Alice'' DefaultID [] SET,
                mkEdge 2 ''friend'' ''x'' DefaultID [] SET,
                mkEdge 2 ''name'' ''Bob'' DefaultID [] SET])
        \<lparr>DropOp := 1, DropValue := ''old'', Types := [\<lparr>TypeName = ''Person'', Fields = []\<rparr>]\<rparr>) =
     Inr [(1::nat, (newMutations 1)
                \<lparr>Edges := [mkEdge 1 ''name'' ''Alice'' DefaultID [] SET,
                           mkEdge 2 ''name'' ''Bob'' DefaultID [] SET],
                 Types := [\<lparr>TypeName = ''Person'', Fields = []\<rparr>],
                 DropOp := 1, DropValue := ''old''\<rparr>),
          (2, (newMutations 2)
                \<lparr>Edges := [mkEdge 2 ''friend'' ''x'' DefaultID [] SET],
                 Types := [\<lparr>TypeName = ''Person'', Fields = []\<rparr>],
                 DropOp := 1, DropValue := ''old''\<rparr>),
          (3, (newMutations 3)
                \<lparr>Types := [\<lparr>TypeName = ''Person'', Fields = []\<rparr>],
                 DropOp := 1, DropValue := ''old''\<rparr>)] \<and>
   (\<exists>mu. map_of
        [(1::nat, (newMutations 1)
                \<lparr>Edges := [mkEdge 1 ''name'' ''Alice'' DefaultID [] SET,
                           mkEdge 2 ''name'' ''Bob'' DefaultID [] SET],
                 Types := [\<lparr>TypeName = ''Person'', Fields = []\<rparr>],
                 DropOp := 1, DropValue := ''old''\<rparr>),
          (2, (newMutations 2)
                \<lparr>Edges := [mkEdge 2 ''friend'' ''x'' DefaultID [] SET],
                 Types := [\<lparr>TypeName = ''Person'', Fields = []\<rparr>],
                 DropOp := 1, DropValue := ''old''\<rparr>),
          (3, (newMutations 3)
                \<lparr>Types := [\<lparr>TypeName = ''Person'', Fields = []\<rparr>],
                 DropOp := 1, DropValue := ''old''\<rparr>)] 3 = Some mu \<and>
        DropOp mu = 1 \<and> DropValue mu = ''old'') \<and>
   distinct (map fst
        [(1::nat, (newMutations 1)
                \<lparr>Edges := [mkEdge 1 ''name'' ''Alice'' DefaultID [] SET,
                           mkEdge 2 ''name'' ''Bob'' DefaultID [] SET],
                 Types := [\<lparr>TypeName = ''Person'', Fields = []\<rparr>],
                 DropOp := 1, DropValue := ''old''\<rparr>),
          (2, (newMutations 2)
                \<lparr>Edges := [mkEdge 2 ''friend'' ''x'' DefaultID [] SET],
                 Types := [\<lparr>TypeName = ''Person'', Fields = []\<rparr>],
                 DropOp := 1, DropValue := ''old''\<rparr>),
          (3, (newMutations 3)
                \<lparr>Types := [\<lparr>TypeName = ''Person'', Fields = []\<rparr>],
                 DropOp := 1, DropValue := ''old''\<rparr>)])"
proof -
  let ?src = "(batch 5 [mkEdge 1 ''name'' ''Alice'' DefaultID [] SET,
                mkEdge 2 ''friend'' ''x'' DefaultID [] SET,
                mkEdge 2 ''name'' ''Bob'' DefaultID [] SET])
        \<lparr>DropOp := 1, DropValue := ''old'', Types := [\<lparr>TypeName = ''Person'', Fields = []\<rparr>]\<rparr>"
  let ?mm = "[(1::nat, (newMutations 1)
                \<lparr>Edges := [mkEdge 1 ''name'' ''Alice'' DefaultID [] SET,
                           mkEdge 2 ''name'' ''Bob'' DefaultID [] SET],
                 Types := [\<lparr>TypeName = ''Person'', Fields = []\<rparr>],
                 DropOp := 1, DropValue := ''old''\<rparr>),
          (2, (newMutations 2)
                \<lparr>Edges := [mkEdge 2 ''friend'' ''x'' DefaultID [] SET],
                 Types := [\<lparr>TypeName = ''Person'', Fields = []\<rparr>],
                 DropOp := 1, DropValue := ''old''\<rparr>),
          (3, (newMutations 3)
                \<lparr>Types := [\<lparr>TypeName = ''Person'', Fields = []\<rparr>],
                 DropOp := 1, DropValue := ''old''\<rparr>)]"
  have pm: "populateMutationMap demoCluster ?src = Inr ?mm" by code_simp
  note part = populateMutationMap_partition [of ?src demoCluster, THEN conjunct2, THEN spec, THEN mp, OF pm]
  from part have d: "distinct (map fst ?mm)" by (rule conjunct1)
  have "DropOp ?src > 0" and "3 \<in> set (KnownGroups demoCluster)"
    by (simp_all add: batch_def newMutations_def demoCluster_def)
  with part [THEN conjunct2, THEN conjunct2, THEN conjunct2, THEN conjunct2, THEN conjunct1]
  have "\<exists>mu. map_of ?mm 3 = Some mu \<and> DropOp mu = DropOp ?src \<and> DropValue mu = DropValue ?src"
    by blast
  then have "\<exists>mu. map_of ?mm 3 = Some mu \<and> DropOp mu = 1 \<and> DropValue mu = ''old''"
    by (simp add: batch_def newMutations_def)
  with pm d show ?thesis by blast
qed

text \<open>
  Claim C6, as the code has it. Type verification and the lookup of every predicate come
  first, and a failure there is what the call returns. For a batch that passes type
  verification and whose predicates all resolve, if an
  edge or a schema update resolves to group id 0 then \<^verbatim>\<open>MutateOverNetwork\<close> returns the
  NonExistentTablet error itself, with a transaction context that holds the start timestamp
  only: no shard's result is waited for or merged. This holds in whatever order the groups
  are visited. The model has no loop around the lookup or the dispatch: nothing is retried.
\<close>

theorem MutateOverNetwork_group_zero:
  assumes "verifyTypes env grp m = None"
    and "\<forall>e\<in>set (Edges m). \<exists>g. BelongsTo grp (Attr e) = Inr g"
    and "\<forall>s\<in>set (Schema m). \<exists>g. BelongsTo grp (su_Predicate s) = Inr g"
    and "(\<exists>e\<in>set (Edges m). BelongsTo grp (Attr e) = Inr 0) \<or>
         (\<exists>s\<in>set (Schema m). BelongsTo grp (su_Predicate s) = Inr 0)"
    and "\<forall>l. mset (iterOrder sch l) = mset l"
  shows "fst (MutateOverNetwork env grp st sch m) =
           (newTxnContext (StartTs m), Some ErrNonExistentTablet)"
proof -
  from populateMutationMap_total [OF assms(2,3)] obtain mm where
    mm: "populateMutationMap grp m = Inr mm" by blast
  from populateMutationMap_keys [OF mm] assms(4) have "0 \<in> fst ` set mm" by blast
  moreover from assms(5) have "set (iterOrder sch mm) = set mm" by (metis set_mset_mset)
  ultimately have "0 \<in> fst ` set (iterOrder sch mm)" by simp
  then have "snd (dispatch (StartTs m) (iterOrder sch mm)) = False" by (rule dispatch_stops)
  then obtain started where "dispatch (StartTs m) (iterOrder sch mm) = (started, False)"
    by (cases "dispatch (StartTs m) (iterOrder sch mm)") simp
  with assms(1) mm show ?thesis by (simp add: MutateOverNetwork_def Let_def)
qed

text \<open>
  A batch with an edge owned by group 1 and an edge on a predicate without tablet.
\<close>

theorem MutateOverNetwork_group_zero_witness:
  "fst (MutateOverNetwork (demoEnv False) demoCluster (stateOf []) demoSched
          (batch 5 [mkEdge 1 ''name'' ''Alice'' DefaultID [] SET,
                    mkEdge 1 ''lost'' ''x'' DefaultID [] SET])) =
     (newTxnContext 5, Some ErrNonExistentTablet)"
  using MutateOverNetwork_group_zero [of "demoEnv False" demoCluster
          "batch 5 [mkEdge 1 ''name'' ''Alice'' DefaultID [] SET,
                    mkEdge 1 ''lost'' ''x'' DefaultID [] SET]" demoSched "stateOf []"]
  by (simp add: verifyTypes_def demoCluster_def demoSched_def batch_def newMutations_def
        mkEdge_def)

text \<open>
  Claim C6 as stated fails: an edge resolves to group id 0, the lookup of another edge's
  predicate fails, and the call returns the lookup's error, not NonExistentTablet.
\<close>

theorem MutateOverNetwork_lookup_error_counterexample:
  "BelongsTo demoCluster (Attr (mkEdge 1 ''lost'' ''x'' DefaultID [] SET)) = Inr 0 \<and>
   fst (MutateOverNetwork (demoEnv False) demoCluster (stateOf []) demoSched
          (batch 5 [mkEdge 1 ''lost'' ''x'' DefaultID [] SET,
                    mkEdge 1 ''nowhere'' ''y'' DefaultID [] SET])) =
     (newTxnContext 5, Some (ErrBelongsTo ''no zero leader''))"
  by (simp add: MutateOverNetwork_def verifyTypes_def populateMutationMap_def entry_def
        demoCluster_def batch_def newMutations_def mkEdge_def newTxnContext_def Let_def)

text \<open>
  Claim C5. For a batch that is dispatched (type verification passed, the partition was
  built, no group id is 0), in whatever order the groups are visited and the results arrive:
  if some shard returns an error, the call returns an error, and it is the error of one of
  the shards; if none does, it returns none; and the keys and the predicates of every shard
  that reported a transaction context are in the returned context, whose start timestamp is
  the batch's.
\<close>

theorem MutateOverNetwork_aggregate:
  assumes "verifyTypes env grp m = None"
    and "populateMutationMap grp m = Inr mm"
    and "0 \<notin> fst ` set mm"
    and "\<forall>l. mset (iterOrder sch l) = mset l"
    and "\<forall>l. mset (arrival sch l) = mset l"
    and "MutateOverNetwork env grp st sch m = ((tctx, e), started)"
  shows "((\<exists>r\<in>set (shardResults grp st (StartTs m) mm). err r \<noteq> None) \<longrightarrow>
            e \<noteq> None \<and> (\<exists>r\<in>set (shardResults grp st (StartTs m) mm). err r = e)) \<and>
         ((\<forall>r\<in>set (shardResults grp st (StartTs m) mm). err r = None) \<longrightarrow> e = None) \<and>
         (\<forall>r\<in>set (shardResults grp st (StartTs m) mm). \<forall>c. ctx r = Some c \<longrightarrow>
            set (Keys c) \<subseteq> set (Keys tctx) \<and> set (Preds c) \<subseteq> set (Preds tctx)) \<and>
         tc_StartTs tctx = StartTs m"
proof -
  let ?ts = "StartTs m"
  let ?rs = "shardResults grp st ?ts mm"
  let ?it = "iterOrder sch mm"
  have it: "set ?it = set mm" using assms(4) by (metis set_mset_mset)
  with assms(3) have "0 \<notin> fst ` set ?it" by simp
  then have d: "dispatch ?ts ?it = (map (\<lambda>(gid, mu). (gid, mu\<lparr>StartTs := ?ts\<rparr>)) ?it, True)"
    by (rule dispatch_complete)
  define arr where "arr = arrival sch (map (\<lambda>(gid, mu). proposeOrSend grp st gid mu)
                             (map (\<lambda>(gid, mu). (gid, mu\<lparr>StartTs := ?ts\<rparr>)) ?it))"
  have "set arr = set (map (\<lambda>(gid, mu). proposeOrSend grp st gid mu)
                             (map (\<lambda>(gid, mu). (gid, mu\<lparr>StartTs := ?ts\<rparr>)) ?it))"
    unfolding arr_def using assms(5) by (metis set_mset_mset)
  also have "\<dots> = set (shardResults grp st ?ts ?it)"
    by (simp add: shardResults_def split_def)
  also have "\<dots> = set ?rs"
    by (simp add: shardResults_def it)
  finally have arr: "set arr = set ?rs" .
  have res: "collect (newTxnContext ?ts) None arr = (tctx, e)"
    using assms(1,2,6) d by (auto simp add: MutateOverNetwork_def Let_def arr_def)
  have e: "e = (case filter (\<lambda>r. err r \<noteq> None) arr of [] \<Rightarrow> None | f # fs \<Rightarrow> err (last (f # fs)))"
    using collect_error [of "newTxnContext ?ts" None arr] res by simp
  have p1: "(\<exists>r\<in>set ?rs. err r \<noteq> None) \<longrightarrow> e \<noteq> None \<and> (\<exists>r\<in>set ?rs. err r = e)"
  proof
    assume "\<exists>r\<in>set ?rs. err r \<noteq> None"
    with arr have ne: "filter (\<lambda>r. err r \<noteq> None) arr \<noteq> []"
      by (simp add: filter_empty_conv)
    then obtain f fs where ffs: "filter (\<lambda>r. err r \<noteq> None) arr = f # fs"
      by (cases "filter (\<lambda>r. err r \<noteq> None) arr") auto
    then have el: "e = err (last (f # fs))" using e by simp
    have "last (f # fs) \<in> set (filter (\<lambda>r. err r \<noteq> None) arr)"
      using ffs by (metis last_in_set list.distinct(1))
    then have "last (f # fs) \<in> set arr \<and> err (last (f # fs)) \<noteq> None" by simp
    with el arr show "e \<noteq> None \<and> (\<exists>r\<in>set ?rs. err r = e)" by auto
  qed
  have p2: "(\<forall>r\<in>set ?rs. err r = None) \<longrightarrow> e = None"
  proof
    assume "\<forall>r\<in>set ?rs. err r = None"
    with arr have "filter (\<lambda>r. err r \<noteq> None) arr = []" by (simp add: filter_empty_conv)
    with e show "e = None" by simp
  qed
  have k: "set (Keys tctx) = (\<Union>r\<in>set ?rs. case ctx r of None \<Rightarrow> {} | Some c \<Rightarrow> set (Keys c))"
    using collect_keys [of "newTxnContext ?ts" None arr] res arr by (simp add: newTxnContext_def)
  have p: "set (Preds tctx) = (\<Union>r\<in>set ?rs. case ctx r of None \<Rightarrow> {} | Some c \<Rightarrow> set (Preds c))"
    using collect_preds [of "newTxnContext ?ts" None arr] res arr by (simp add: newTxnContext_def)
  have p3: "\<forall>r\<in>set ?rs. \<forall>c. ctx r = Some c \<longrightarrow>
            set (Keys c) \<subseteq> set (Keys tctx) \<and> set (Preds c) \<subseteq> set (Preds tctx)"
    unfolding k p by (auto split: option.splits) 
  have p4: "tc_StartTs tctx = ?ts"
    using collect_StartTs [of "newTxnContext ?ts" None arr] res by (simp add: newTxnContext_def)
  from p1 p2 p3 p4 show ?thesis by blast
qed

text \<open>
  The scenario of the spec: two edges whose predicates are owned by two groups; the remote
  one fails with a network error and the local one succeeds. The call returns the network
  error, and the key and the predicate of the shard that succeeded are in the context.
\<close>

theorem MutateOverNetwork_aggregate_witness:
  "fst (MutateOverNetwork (demoEnv False) demoCluster (stateOf []) demoSched
          (batch 5 [mkEdge 1 ''name'' ''Alice'' DefaultID [] SET,
                    mkEdge 1 ''friend'' ''x'' DefaultID [] SET])) =
     (\<lparr>tc_StartTs = 5, CommitTs = 0, Aborted = False, Keys = [''k1''], Preds = [''1-name'']\<rparr>,
      Some (ErrRemote ''connection refused'')) \<and>
   (\<exists>r\<in>set (shardResults demoCluster (stateOf []) 5
               [(1::nat, (newMutations 1)\<lparr>Edges := [mkEdge 1 ''name'' ''Alice'' DefaultID [] SET]\<rparr>),
                (2, (newMutations 2)\<lparr>Edges := [mkEdge 1 ''friend'' ''x'' DefaultID [] SET]\<rparr>)]).
      err r = Some (ErrRemote ''connection refused'') \<and> ctx r = None) \<and>
   (\<exists>r\<in>set (shardResults demoCluster (stateOf []) 5
               [(1::nat, (newMutations 1)\<lparr>Edges := [mkEdge 1 ''name'' ''Alice'' DefaultID [] SET]\<rparr>),
                (2, (newMutations 2)\<lparr>Edges := [mkEdge 1 ''friend'' ''x'' DefaultID [] SET]\<rparr>)]).
      err r = None \<and> map_option Keys (ctx r) = Some [''k1''])"
proof -
  let ?m = "batch 5 [mkEdge 1 ''name'' ''Alice'' DefaultID [] SET,
                     mkEdge 1 ''friend'' ''x'' DefaultID [] SET]"
  let ?mm = "[(1::nat, (newMutations 1)\<lparr>Edges := [mkEdge 1 ''name'' ''Alice'' DefaultID [] SET]\<rparr>),
              (2, (newMutations 2)\<lparr>Edges := [mkEdge 1 ''friend'' ''x'' DefaultID [] SET]\<rparr>)]"
  let ?tctx = "\<lparr>tc_StartTs = 5, CommitTs = 0, Aborted = False, Keys = [''k1''],
                Preds = [''1-name'']\<rparr>"
  have vt: "verifyTypes (demoEnv False) demoCluster ?m = None" by code_simp
  have pm: "populateMutationMap demoCluster ?m = Inr ?mm" by code_simp
  have z: "0 \<notin> fst ` set ?mm" by simp
  have s1: "\<forall>l. mset (iterOrder demoSched l) = mset l" by (simp add: demoSched_def)
  have s2: "\<forall>l. mset (arrival demoSched l) = mset l" by (simp add: demoSched_def)
  have run: "MutateOverNetwork (demoEnv False) demoCluster (stateOf []) demoSched ?m =
               ((?tctx, Some (ErrRemote ''connection refused'')),
                [(1::nat, (newMutations 1)\<lparr>StartTs := 5,
                       Edges := [mkEdge 1 ''name'' ''Alice'' DefaultID [] SET]\<rparr>),
                 (2, (newMutations 2)\<lparr>StartTs := 5,
                       Edges := [mkEdge 1 ''friend'' ''x'' DefaultID [] SET]\<rparr>)])"
    by code_simp
  have r1: "\<exists>r\<in>set (shardResults demoCluster (stateOf []) 5 ?mm).
              err r = Some (ErrRemote ''connection refused'') \<and> ctx r = None"
    by code_simp
  have r2: "\<exists>r\<in>set (shardResults demoCluster (stateOf []) 5 ?mm).
              err r = None \<and> map_option Keys (ctx r) = Some [''k1'']"
    by code_simp
  from MutateOverNetwork_aggregate [OF vt pm z s1 s2 run] run r1 r2
  show ?thesis by simp
qed

lemma anyNonEmpty_iff:
  "anyNonEmpty env items \<longleftrightarrow> (\<exists>it\<in>set items. UserMeta it AND BitEmptyPosting env = 0)"
  by (induction items) auto

lemma validateSchemaForUnique_shape:
  "validateSchemaForUnique env prev s = (r, s') \<Longrightarrow>
     su_Predicate s' = su_Predicate s \<and> su_ValueType s' = su_ValueType s \<and> su_List s' = su_List s"
  by (auto simp add: validateSchemaForUnique_def Let_def split: if_splits)

lemma checkTypeChange_rejects:
  assumes "predicate st (su_Predicate s) = Some old"
    and "hasEdges env store (su_Predicate s) MaxUint64"
    and "IsScalar (su_ValueType old) \<noteq> IsScalar (su_ValueType s) \<or>
         (su_List old \<and> \<not> su_List s \<and>
          \<not> (su_ValueType old = PasswordID \<and> su_ValueType s = PasswordID))"
  shows "\<exists>e. checkTypeChange env store st s = Some e"
  using assms
  by (auto simp add: checkTypeChange_def state_TypeOf_def state_IsList_def IsScalar_def Let_def)

text \<open>
  Claim C3, as the code has it. For a predicate that has a schema and for which the scan
  finds data, \<^verbatim>\<open>checkSchema\<close> rejects every update that flips between uid and scalar, whatever
  its other fields; and it rejects every update that turns a list into a non-list unless the
  old and the new type are both password, the case in which only the types are compared.
  The scan \<^verbatim>\<open>hasEdges\<close> finds data exactly when some item under the predicate's data prefix,
  at the timestamp given, has its empty-posting bit clear: it looks at the user meta bytes
  only, so a posting list whose deltas sum to nothing but whose item is not marked empty
  counts as data.
\<close>

theorem checkSchema_rejects_shape_change:
  assumes "predicate st (su_Predicate s) = Some old"
    and "hasEdges env store (su_Predicate s) MaxUint64"
    and "IsScalar (su_ValueType old) \<noteq> IsScalar (su_ValueType s) \<or>
         (su_List old \<and> \<not> su_List s \<and>
          \<not> (su_ValueType old = PasswordID \<and> su_ValueType s = PasswordID))"
  shows "(\<exists>e. checkSchema env store st (Some s) = Inl e) \<and>
         (hasEdges env store attr ts \<longleftrightarrow>
            (\<exists>it\<in>set (store attr ts). UserMeta it AND BitEmptyPosting env = 0))"
proof -
  obtain r s' where v: "(if su_Unique s
                   then validateSchemaForUnique env (fst (state_Get False st (su_Predicate s))) s
                   else (None, s)) = (r, s')"
    by (cases "(if su_Unique s
                   then validateSchemaForUnique env (fst (state_Get False st (su_Predicate s))) s
                   else (None, s))")
  then have sh: "su_Predicate s' = su_Predicate s \<and> su_ValueType s' = su_ValueType s \<and>
                 su_List s' = su_List s"
    by (auto dest: validateSchemaForUnique_shape split: if_splits)
  with assms have "\<exists>e. checkTypeChange env store st s' = Some e"
    by (intro checkTypeChange_rejects [of st s' old]) simp_all
  then obtain e where e: "checkTypeChange env store st s' = Some e" by blast
  have "\<exists>e. checkSchema env store st (Some s) = Inl e"
    unfolding checkSchema_def using v e by (cases r) (simp_all)
  then show ?thesis by (simp add: hasEdges_def anyNonEmpty_iff)
qed

lemmas schema_defs = checkSchema_def checkTypeChange_def state_TypeOf_def state_IsList_def
  hasEdges_def demoStore_def stateOf_def pwSchema_def uidSchema_def stringSchema_def
  demoEnv_def zeroSchemaUpdate_def IsScalar_def MaxUint64_def Let_def

text \<open>
  A uid list with data cannot become a string, nor a single uid; and the posting list whose
  deltas cancel counts as data, while the one marked empty does not.
\<close>

theorem checkSchema_rejects_shape_change_witness:
  "(\<exists>e. checkSchema (demoEnv False) demoStore (stateOf [uidSchema ''friend'' True])
          (Some (stringSchema ''friend'')) = Inl e) \<and>
   (\<exists>e. checkSchema (demoEnv False) demoStore (stateOf [uidSchema ''friend'' True])
          (Some (uidSchema ''friend'' False)) = Inl e) \<and>
   hasEdges (demoEnv False) demoStore ''gone'' MaxUint64 \<and>
   hasEdges (demoEnv False) demoStore ''empty'' MaxUint64 = False"
  using checkSchema_rejects_shape_change [of "stateOf [uidSchema ''friend'' True]"
          "stringSchema ''friend''" "uidSchema ''friend'' True" "demoEnv False" demoStore
          "''gone''" MaxUint64]
        checkSchema_rejects_shape_change [of "stateOf [uidSchema ''friend'' True]"
          "uidSchema ''friend'' False" "uidSchema ''friend'' True" "demoEnv False" demoStore
          "''empty''" MaxUint64]
  by (simp add: hasEdges_def demoStore_def stateOf_def uidSchema_def stringSchema_def
        demoEnv_def zeroSchemaUpdate_def IsScalar_def)

text \<open>
  Claim C3 as stated fails for the list part: a password predicate that is a list and has
  data is turned into a non-list, and the update is accepted.
\<close>

theorem checkSchema_password_list_counterexample:
  "predicate (stateOf [pwSchema True]) (su_Predicate (pwSchema False)) = Some (pwSchema True) \<and>
   su_List (pwSchema True) \<and> su_List (pwSchema False) = False \<and>
   hasEdges (demoEnv False) demoStore (su_Predicate (pwSchema False)) MaxUint64 \<and>
   checkSchema (demoEnv False) demoStore (stateOf [pwSchema True]) (Some (pwSchema False)) =
     Inr (pwSchema False)"
  by (simp add: schema_defs)

lemma first_success:
  "\<exists>i<n. P (i::nat) \<Longrightarrow> \<exists>k<n. P k \<and> (\<forall>i<k. \<not> P i)"
proof -
  assume "\<exists>i<n. P i"
  then have "\<exists>i. i < n \<and> P i" by blast
  then obtain k where k: "k < n \<and> P k" and m: "\<forall>j<k. \<not> (j < n \<and> P j)"
    using exists_least_iff [of "\<lambda>i. i < n \<and> P i"] by auto
  from k m have "\<forall>j<k. \<not> P j" by auto
  with k show ?thesis by blast
qed

lemma schema_Load_fail:
  "loadErr sto pred (loads w) = Some m \<Longrightarrow>
     schema_Load sto pred w = (Some m, w\<lparr>loads := loads w + 1\<rparr>)"
  by (simp add: schema_Load_def)

lemma schema_Load_ok:
  assumes "loadErr sto pred (loads w) = None" and "schema_Load sto pred w = (r, w')"
  shows "r = None \<and> loads w' = loads w + 1 \<and> slept w' = slept w \<and> disk w' = disk w \<and>
         (\<forall>d. disk w pred = Some d \<longrightarrow> predicate (mem w') pred = Some d)"
  using assms
  by (auto simp add: schema_Load_def Let_def state_Set_def state_DeleteMutSchema_def
        split: option.splits)

lemma retry_exhausted:
  "\<forall>i<n. loadErr sto pred (loads w + i) \<noteq> None \<Longrightarrow>
     \<exists>e' w'. RetryUntilSuccess n wt (schema_Load sto pred) e w = (e', w') \<and>
             (n > 0 \<longrightarrow> e' \<noteq> None) \<and> loads w' = loads w + n \<and>
             slept w' = slept w + n * wt \<and> disk w' = disk w"
proof (induction n arbitrary: e w)
  case 0
  then show ?case by simp
next
  case (Suc n)
  from Suc.prems have "loadErr sto pred (loads w) \<noteq> None" by force
  then obtain m where m: "loadErr sto pred (loads w) = Some m" by blast
  let ?w1 = "w\<lparr>loads := loads w + 1, slept := slept w + wt\<rparr>"
  have step: "RetryUntilSuccess (Suc n) wt (schema_Load sto pred) e w =
                RetryUntilSuccess n wt (schema_Load sto pred) (Some m) ?w1"
    by (simp add: schema_Load_fail [OF m])
  have "\<forall>i<n. loadErr sto pred (loads ?w1 + i) \<noteq> None"
    using Suc.prems by (auto dest: spec [where x = "Suc i" for i])
  from Suc.IH [OF this, of "Some m"] obtain e' w' where
    r: "RetryUntilSuccess n wt (schema_Load sto pred) (Some m) ?w1 = (e', w')"
    and e': "n > 0 \<longrightarrow> e' \<noteq> None"
    and rest: "loads w' = loads ?w1 + n" "slept w' = slept ?w1 + n * wt" "disk w' = disk ?w1"
    by blast
  have "e' \<noteq> None"
  proof (cases n)
    case 0
    with r show ?thesis by auto
  next
    case (Suc k)
    with e' show ?thesis by simp
  qed
  with step r rest show ?case by simp
qed

lemma retry_succeeds:
  "k < n \<Longrightarrow> \<forall>i<k. loadErr sto pred (loads w + i) \<noteq> None \<Longrightarrow>
   loadErr sto pred (loads w + k) = None \<Longrightarrow>
     \<exists>w'. RetryUntilSuccess n wt (schema_Load sto pred) e w = (None, w') \<and>
          loads w' = loads w + k + 1 \<and> slept w' = slept w + k * wt \<and> disk w' = disk w \<and>
          (\<forall>d. disk w pred = Some d \<longrightarrow> predicate (mem w') pred = Some d)"
proof (induction n arbitrary: e w k)
  case 0
  then show ?case by simp
next
  case (Suc n)
  show ?case
  proof (cases k)
    case 0
    with Suc.prems have ok: "loadErr sto pred (loads w) = None" by simp
    obtain r w' where l: "schema_Load sto pred w = (r, w')" by (cases "schema_Load sto pred w")
    from schema_Load_ok [OF ok l] l 0 show ?thesis by simp
  next
    case (Suc j)
    with Suc.prems have "loadErr sto pred (loads w) \<noteq> None" by force
    then obtain m where m: "loadErr sto pred (loads w) = Some m" by blast
    let ?w1 = "w\<lparr>loads := loads w + 1, slept := slept w + wt\<rparr>"
    have step: "RetryUntilSuccess (Suc n) wt (schema_Load sto pred) e w =
                  RetryUntilSuccess n wt (schema_Load sto pred) (Some m) ?w1"
      by (simp add: schema_Load_fail [OF m])
    have a: "j < n" using Suc Suc.prems by simp
    have b: "\<forall>i<j. loadErr sto pred (loads ?w1 + i) \<noteq> None"
      using Suc.prems Suc by (auto dest: spec [where x = "Suc i" for i])
    have c: "loadErr sto pred (loads ?w1 + j) = None" using Suc.prems Suc by simp
    from Suc.IH [OF a b c, of "Some m"] step Suc show ?thesis by auto
  qed
qed

lemma buildIndexesHelper_failed:
  "buildIndexesHelper sto update rebuild w = Returned (Some e, w1) \<Longrightarrow>
     disk w1 = disk w \<and> loads w1 = loads w \<and> slept w1 = slept w"
  by (auto simp add: buildIndexesHelper_def updateSchema_def Let_def split: option.splits)


text \<open>
  Claim C2. When the background task of a schema update fails, in the index rebuild or in
  the commit that follows it, the durable schema records are left exactly as they were: the
  record is written only after the rebuild has succeeded. The predicate's schema is then
  reloaded with a budget of ten tries and a wait of ten milliseconds after each failed one:
  at most ten loads are made; if the load first succeeds at try \<open>k + 1\<close>, the task
  returns after \<open>k + 1\<close> loads and \<open>10 * k\<close> milliseconds of waiting, with the durable
  schema back in memory; if all ten tries fail, the process is terminated, after ten loads.
\<close>

theorem rebuild_failure_rollback:
  assumes "throttleErr sto = None"
    and "buildIndexesHelper sto update rebuild w = Returned (Some e, w1)"
  shows "disk (final (buildIndexes sto update rebuild w)) = disk w \<and>
         loads (final (buildIndexes sto update rebuild w)) \<le> loads w + 10 \<and>
         (\<forall>k<10. (\<forall>i<k. loadErr sto (su_Predicate update) (loads w + i) \<noteq> None) \<and>
                  loadErr sto (su_Predicate update) (loads w + k) = None \<longrightarrow>
            (\<exists>w'. buildIndexes sto update rebuild w = Returned w' \<and>
                  loads w' = loads w + k + 1 \<and> slept w' = slept w + 10 * k \<and>
                  (\<forall>d. disk w (su_Predicate update) = Some d \<longrightarrow>
                       predicate (mem w') (su_Predicate update) = Some d))) \<and>
         ((\<forall>i<10. loadErr sto (su_Predicate update) (loads w + i) \<noteq> None) \<longrightarrow>
            (\<exists>m w'. buildIndexes sto update rebuild w = Fatal m w' \<and>
                    loads w' = loads w + 10 \<and> slept w' = slept w + 100))"
proof -
  let ?p = "su_Predicate update"
  let ?r = "RetryUntilSuccess 10 10 (schema_Load sto ?p) None w1"
  note h = buildIndexesHelper_failed [OF assms(2)]
  have b: "buildIndexes sto update rebuild w =
             (case ?r of (None, w') \<Rightarrow> Returned w' | (Some m, w') \<Rightarrow> Fatal m w')"
    using assms by (simp add: buildIndexes_def undoSchemaUpdate_def)
  have ex: "(\<forall>i<10. loadErr sto ?p (loads w + i) \<noteq> None) \<longrightarrow>
            (\<exists>m w'. buildIndexes sto update rebuild w = Fatal m w' \<and>
                    loads w' = loads w + 10 \<and> slept w' = slept w + 100 \<and> disk w' = disk w)"
  proof
    assume "\<forall>i<10. loadErr sto ?p (loads w + i) \<noteq> None"
    with h have "\<forall>i<10. loadErr sto ?p (loads w1 + i) \<noteq> None" by simp
    from retry_exhausted [OF this, of 10 None] obtain e' w' where
      "?r = (e', w')" "e' \<noteq> None" "loads w' = loads w1 + 10"
      "slept w' = slept w1 + 10 * 10" "disk w' = disk w1"
      by auto
    with b h show "\<exists>m w'. buildIndexes sto update rebuild w = Fatal m w' \<and>
                    loads w' = loads w + 10 \<and> slept w' = slept w + 100 \<and> disk w' = disk w"
      by auto
  qed
  have ok: "\<forall>k<10. (\<forall>i<k. loadErr sto ?p (loads w + i) \<noteq> None) \<and>
                  loadErr sto ?p (loads w + k) = None \<longrightarrow>
            (\<exists>w'. buildIndexes sto update rebuild w = Returned w' \<and>
                  loads w' = loads w + k + 1 \<and> slept w' = slept w + 10 * k \<and>
                  disk w' = disk w \<and>
                  (\<forall>d. disk w ?p = Some d \<longrightarrow> predicate (mem w') ?p = Some d))"
  proof (intro allI impI)
    fix k :: nat
    assume k: "k < 10"
      and "(\<forall>i<k. loadErr sto ?p (loads w + i) \<noteq> None) \<and> loadErr sto ?p (loads w + k) = None"
    with h have f: "\<forall>i<k. loadErr sto ?p (loads w1 + i) \<noteq> None"
      and s: "loadErr sto ?p (loads w1 + k) = None" by simp_all
    from retry_succeeds [OF k f s, of 10 None] obtain w' where
      "?r = (None, w')" "loads w' = loads w1 + k + 1" "slept w' = slept w1 + k * 10"
      "disk w' = disk w1" "\<forall>d. disk w1 ?p = Some d \<longrightarrow> predicate (mem w') ?p = Some d"
      by auto
    with b h show "\<exists>w'. buildIndexes sto update rebuild w = Returned w' \<and>
                  loads w' = loads w + k + 1 \<and> slept w' = slept w + 10 * k \<and>
                  disk w' = disk w \<and>
                  (\<forall>d. disk w ?p = Some d \<longrightarrow> predicate (mem w') ?p = Some d)"
      by auto
  qed
  have cases: "(\<forall>i<10. loadErr sto ?p (loads w + i) \<noteq> None) \<or>
               (\<exists>k<10. (\<forall>i<k. loadErr sto ?p (loads w + i) \<noteq> None) \<and>
                        loadErr sto ?p (loads w + k) = None)"
  proof (cases "\<forall>i<10. loadErr sto ?p (loads w + i) \<noteq> None")
    case True
    then show ?thesis by (rule disjI1)
  next
    case False
    then have "\<exists>i<10. loadErr sto ?p (loads w + i) = None" by simp
    from first_success [of 10 "\<lambda>i. loadErr sto ?p (loads w + i) = None", OF this]
    have "\<exists>k<10. (\<forall>i<k. loadErr sto ?p (loads w + i) \<noteq> None) \<and>
                        loadErr sto ?p (loads w + k) = None"
      by auto
    then show ?thesis by (rule disjI2)
  qed
  have d: "disk (final (buildIndexes sto update rebuild w)) = disk w \<and>
           loads (final (buildIndexes sto update rebuild w)) \<le> loads w + 10"
    using cases
  proof
    assume "\<forall>i<10. loadErr sto ?p (loads w + i) \<noteq> None"
    with ex obtain m w' where "buildIndexes sto update rebuild w = Fatal m w'"
      "loads w' = loads w + 10" "disk w' = disk w" by blast
    then show ?thesis by simp
  next
    assume "\<exists>k<10. (\<forall>i<k. loadErr sto ?p (loads w + i) \<noteq> None) \<and>
                        loadErr sto ?p (loads w + k) = None"
    then obtain k where k: "k < 10" "(\<forall>i<k. loadErr sto ?p (loads w + i) \<noteq> None) \<and>
                        loadErr sto ?p (loads w + k) = None" by blast
    with ok obtain w' where "buildIndexes sto update rebuild w = Returned w'"
      "loads w' = loads w + k + 1" "disk w' = disk w" by blast
    with k show ?thesis by simp
  qed
  from ok have ok': "\<forall>k<10. (\<forall>i<k. loadErr sto ?p (loads w + i) \<noteq> None) \<and>
                  loadErr sto ?p (loads w + k) = None \<longrightarrow>
            (\<exists>w'. buildIndexes sto update rebuild w = Returned w' \<and>
                  loads w' = loads w + k + 1 \<and> slept w' = slept w + 10 * k \<and>
                  (\<forall>d. disk w ?p = Some d \<longrightarrow> predicate (mem w') ?p = Some d))"
    by meson
  from ex have ex': "(\<forall>i<10. loadErr sto ?p (loads w + i) \<noteq> None) \<longrightarrow>
            (\<exists>m w'. buildIndexes sto update rebuild w = Fatal m w' \<and>
                    loads w' = loads w + 10 \<and> slept w' = slept w + 100)"
    by meson
  from d ok' ex' show ?thesis by (intro conjI) simp_all
qed

text \<open>
  The rebuild of the index on \<open>name\<close> fails. When the store can be read again at the fourth
  try, the plain string schema is back in memory and still the durable one; when it cannot
  be read for ten tries, the process is terminated.
\<close>

theorem rebuild_failure_rollback_witness:
  "(\<exists>w'. buildIndexes (failingStorage 3) demoUpdate demoRebuild demoWorld = Returned w' \<and>
         loads w' = 4 \<and> slept w' = 30 \<and>
         predicate (mem w') ''name'' = Some (stringSchema ''name'')) \<and>
   disk (final (buildIndexes (failingStorage 3) demoUpdate demoRebuild demoWorld)) ''name'' =
     Some (stringSchema ''name'') \<and>
   (\<exists>m w'. buildIndexes (failingStorage 10) demoUpdate demoRebuild demoWorld = Fatal m w' \<and>
           loads w' = 10 \<and> slept w' = 100)"
proof -
  have h: "\<And>k. throttleErr (failingStorage k) = None"
    "\<And>k. buildIndexesHelper (failingStorage k) demoUpdate demoRebuild demoWorld =
            Returned (Some (ErrRebuild ''no space left''), demoWorld)"
    by (simp_all add: failingStorage_def buildIndexesHelper_def)
  note t3 = rebuild_failure_rollback [OF h(1) h(2), of 3]
  note t10 = rebuild_failure_rollback [OF h(1) h(2), of 10]
  have p: "su_Predicate demoUpdate = ''name''" "loads demoWorld = 0" "slept demoWorld = 0"
    "disk demoWorld ''name'' = Some (stringSchema ''name'')"
    by (simp_all add: demoUpdate_def stringSchema_def zeroSchemaUpdate_def demoWorld_def)
  have l3: "(\<forall>i<3. loadErr (failingStorage 3) ''name'' i \<noteq> None) \<and>
            loadErr (failingStorage 3) ''name'' 3 = None"
    by (simp add: failingStorage_def)
  have l10: "\<forall>i<10. loadErr (failingStorage 10) ''name'' i \<noteq> None"
    by (simp add: failingStorage_def)
  from t3 [THEN conjunct2, THEN conjunct2, THEN conjunct1, rule_format, of 3] l3
  have a: "\<exists>w'. buildIndexes (failingStorage 3) demoUpdate demoRebuild demoWorld = Returned w' \<and>
         loads w' = 4 \<and> slept w' = 30 \<and>
         predicate (mem w') ''name'' = Some (stringSchema ''name'')"
    by (simp add: p)
  from t3 [THEN conjunct1]
  have b: "disk (final (buildIndexes (failingStorage 3) demoUpdate demoRebuild demoWorld)) ''name'' =
     Some (stringSchema ''name'')"
    by (simp add: p)
  from t10 [THEN conjunct2, THEN conjunct2, THEN conjunct2] l10
  have c: "\<exists>m w'. buildIndexes (failingStorage 10) demoUpdate demoRebuild demoWorld = Fatal m w' \<and>
           loads w' = 10 \<and> slept w' = 100"
    by (simp add: p)
  from a b c show ?thesis by (intro conjI)
qed

end
